theory Spec2Isabelle
  imports Main "HOL-Library.Sublist"
begin

section \<open>The icon finder of miniflux (internal/reader/icon/finder.go)\<close>

text \<open>
  A Go \<^verbatim>\<open>string\<close> and a Go \<^verbatim>\<open>[]byte\<close> are both sequences of bytes; both are
  modelled as \<^typ>\<open>string\<close> (a list of \<^typ>\<open>char\<close>, one \<^typ>\<open>char\<close> per byte).
  Indices are Go \<^verbatim>\<open>int\<close>s; they are modelled as \<^typ>\<open>int\<close> (no index of this file
  leaves the range of a string's length).
\<close>

subsection \<open>The Go standard library functions the finder calls\<close>

text \<open>\<^verbatim>\<open>strings.HasPrefix(s, prefix)\<close>.\<close>

definition HasPrefix :: "string \<Rightarrow> string \<Rightarrow> bool" where
  "HasPrefix s p = prefix p s"

text \<open>\<^verbatim>\<open>strings.Index(s, substr)\<close>: the index of the first instance of
  \<^verbatim>\<open>substr\<close> in \<^verbatim>\<open>s\<close>, or \<^verbatim>\<open>-1\<close> when there is none.\<close>

fun Index :: "string \<Rightarrow> string \<Rightarrow> int" where
  "Index [] substr = (if substr = [] then 0 else - 1)"
| "Index (c # s) substr =
     (if prefix substr (c # s) then 0
      else (let i = Index s substr in if i < 0 then - 1 else i + 1))"

text \<open>The slice expression \<^verbatim>\<open>s[i:j]\<close>. Go panics unless \<open>0 \<le> i \<le> j \<le> len(s)\<close>;
  the finder only slices at indices that \<^verbatim>\<open>strings.Index\<close> returned, which are in
  range (lemmas \<open>Index_range\<close> and \<open>split_indices_in_range\<close> below).\<close>

definition slice :: "string \<Rightarrow> int \<Rightarrow> int \<Rightarrow> string" where
  "slice s i j = take (nat j - nat i) (drop (nat i) s)"

text \<open>\<^verbatim>\<open>strings.TrimSpace\<close> removes leading and trailing white space as Unicode
  defines it (\<^verbatim>\<open>unicode.IsSpace\<close>): the runes U+0009 to U+000D, U+0020, U+0085, U+00A0,
  U+1680, U+2000 to U+200A, U+2028, U+2029, U+202F, U+205F and U+3000. The list below
  holds their UTF-8 encodings. A byte sequence that is not valid UTF-8 decodes to
  U+FFFD, which is not white space, so trimming removes exactly leading and trailing
  occurrences of these encodings.\<close>

definition spaceRunes :: "string list" where
  "spaceRunes =
    [[CHR 0x09], [CHR 0x0A], [CHR 0x0B], [CHR 0x0C], [CHR 0x0D], [CHR 0x20],
     [CHR 0xC2, CHR 0x85], [CHR 0xC2, CHR 0xA0],
     [CHR 0xE1, CHR 0x9A, CHR 0x80],
     [CHR 0xE2, CHR 0x80, CHR 0x80], [CHR 0xE2, CHR 0x80, CHR 0x81],
     [CHR 0xE2, CHR 0x80, CHR 0x82], [CHR 0xE2, CHR 0x80, CHR 0x83],
     [CHR 0xE2, CHR 0x80, CHR 0x84], [CHR 0xE2, CHR 0x80, CHR 0x85],
     [CHR 0xE2, CHR 0x80, CHR 0x86], [CHR 0xE2, CHR 0x80, CHR 0x87],
     [CHR 0xE2, CHR 0x80, CHR 0x88], [CHR 0xE2, CHR 0x80, CHR 0x89],
     [CHR 0xE2, CHR 0x80, CHR 0x8A],
     [CHR 0xE2, CHR 0x80, CHR 0xA8], [CHR 0xE2, CHR 0x80, CHR 0xA9],
     [CHR 0xE2, CHR 0x80, CHR 0xAF],
     [CHR 0xE2, CHR 0x81, CHR 0x9F],
     [CHR 0xE3, CHR 0x80, CHR 0x80]]"

text \<open>The width in bytes of the white-space rune a string starts with (ends with),
  0 when it starts (ends) with none.\<close>

definition leadingSpace :: "string \<Rightarrow> nat" where
  "leadingSpace s = (case List.find (\<lambda>e. prefix e s) spaceRunes of
                       None \<Rightarrow> 0 | Some e \<Rightarrow> length e)"

definition trailingSpace :: "string \<Rightarrow> nat" where
  "trailingSpace s = (case List.find (\<lambda>e. suffix e s) spaceRunes of
                        None \<Rightarrow> 0 | Some e \<Rightarrow> length e)"

lemma leadingSpace_le: "leadingSpace s \<le> length s"
  by (auto simp: leadingSpace_def find_Some_iff prefix_length_le split: option.splits)

lemma trailingSpace_le: "trailingSpace s \<le> length s"
  by (auto simp: trailingSpace_def find_Some_iff suffix_length_le split: option.splits)

function TrimLeftSpace :: "string \<Rightarrow> string" where
  "TrimLeftSpace s =
     (if leadingSpace s = 0 then s else TrimLeftSpace (drop (leadingSpace s) s))"
  by pat_completeness auto
termination
proof (relation "measure length")
  fix s :: string
  assume "leadingSpace s \<noteq> 0"
  with leadingSpace_le [of s] show "(drop (leadingSpace s) s, s) \<in> measure length"
    by simp
qed simp

function TrimRightSpace :: "string \<Rightarrow> string" where
  "TrimRightSpace s =
     (if trailingSpace s = 0 then s
      else TrimRightSpace (take (length s - trailingSpace s) s))"
  by pat_completeness auto
termination
proof (relation "measure length")
  fix s :: string
  assume "trailingSpace s \<noteq> 0"
  with trailingSpace_le [of s]
  show "(take (length s - trailingSpace s) s, s) \<in> measure length"
    by simp
qed simp

declare TrimLeftSpace.simps [simp del] TrimRightSpace.simps [simp del]

definition TrimSpace :: "string \<Rightarrow> string" where
  "TrimSpace s = TrimRightSpace (TrimLeftSpace s)"

text \<open>\<^verbatim>\<open>base64.StdEncoding\<close>: the alphabet of RFC 4648 with \<^verbatim>\<open>=\<close> padding, not in
  strict mode. \<^verbatim>\<open>decodeMap\<close> maps a byte of the alphabet to its 6-bit value.\<close>

definition encodeStd :: string where
  "encodeStd = ''ABCDEFGHIJKLMNOPQRSTUVWXYZabcdefghijklmnopqrstuvwxyz0123456789+/''"

fun index_of :: "'a list \<Rightarrow> 'a \<Rightarrow> nat option" where
  "index_of [] c = None"
| "index_of (x # xs) c = (if x = c then Some 0 else map_option Suc (index_of xs c))"

definition decodeMap :: "char \<Rightarrow> nat option" where
  "decodeMap c = index_of encodeStd c"

fun skipNewlines :: "string \<Rightarrow> string" where
  "skipNewlines [] = []"
| "skipNewlines (c # cs) =
     (if c = CHR 0x0A \<or> c = CHR 0x0D then skipNewlines cs else c # cs)"

text \<open>The end of \<^verbatim>\<open>decodeQuantum\<close>: the (up to four) 6-bit values of \<^verbatim>\<open>dbuf\<close>,
  the missing ones 0, are packed into 24 bits (\<^verbatim>\<open>d0<<18 | d1<<12 | d2<<6 | d3\<close>; the
  fields do not overlap, so the sum below is the same number) and the first
  \<^verbatim>\<open>dlen - 1\<close> of the three bytes are written. Outside strict mode the bits that
  are dropped are not looked at.\<close>

definition quantumBytes :: "nat list \<Rightarrow> string" where
  "quantumBytes dbuf =
     (let d = dbuf @ replicate (4 - length dbuf) 0;
          val = d ! 0 * 2 ^ 18 + d ! 1 * 2 ^ 12 + d ! 2 * 2 ^ 6 + d ! 3
      in take (length dbuf - 1)
           [char_of (val div 2 ^ 16), char_of (val div 2 ^ 8), char_of val])"

text \<open>\<^verbatim>\<open>base64.StdEncoding.DecodeString\<close>, \<open>None\<close> for a \<^verbatim>\<open>CorruptInputError\<close> (its
  offset is not modelled). The first argument is \<^verbatim>\<open>dbuf[0:j]\<close> of the quantum being
  read. As in \<^verbatim>\<open>decodeQuantum\<close>: a byte of the alphabet is stored; \<^verbatim>\<open>\r\<close> and \<^verbatim>\<open>\n\<close>
  are skipped; any other byte than \<^verbatim>\<open>=\<close> is corrupt; \<^verbatim>\<open>=\<close> is accepted only as the
  third byte of a quantum followed by a second \<^verbatim>\<open>=\<close>, or as its fourth byte, and only
  new lines may follow the padding; the input may end only between quanta.\<close>

fun decodeQuantum :: "nat list \<Rightarrow> string \<Rightarrow> string option" where
  "decodeQuantum dbuf [] = (if dbuf = [] then Some [] else None)"
| "decodeQuantum dbuf (c # src) =
     (case decodeMap c of
        Some out \<Rightarrow>
          (if length dbuf = 3
           then map_option (\<lambda>r. quantumBytes (dbuf @ [out]) @ r) (decodeQuantum [] src)
           else decodeQuantum (dbuf @ [out]) src)
      | None \<Rightarrow>
          (if c = CHR 0x0A \<or> c = CHR 0x0D then decodeQuantum dbuf src
           else if c \<noteq> CHR ''='' then None
           else if length dbuf = 2 then
             (case skipNewlines src of
                [] \<Rightarrow> None
              | p # rest \<Rightarrow>
                  (if p \<noteq> CHR ''='' then None
                   else if skipNewlines rest \<noteq> [] then None
                   else Some (quantumBytes dbuf)))
           else if length dbuf = 3 then
             (if skipNewlines src \<noteq> [] then None else Some (quantumBytes dbuf))
           else None))"

definition DecodeString :: "string \<Rightarrow> string option" where
  "DecodeString s = decodeQuantum [] s"

text \<open>\<^verbatim>\<open>url.QueryUnescape\<close>: \<^verbatim>\<open>%XY\<close> with two hexadecimal digits becomes the byte
  \<^verbatim>\<open>0xXY\<close>, \<^verbatim>\<open>+\<close> becomes a space, every other byte is kept; a \<^verbatim>\<open>%\<close> that is not
  followed by two hexadecimal digits is an \<^verbatim>\<open>EscapeError\<close> (\<open>None\<close>).\<close>

definition ishex :: "char \<Rightarrow> bool" where
  "ishex c = (let n = (of_char c :: nat) in
     (48 \<le> n \<and> n \<le> 57) \<or> (97 \<le> n \<and> n \<le> 102) \<or> (65 \<le> n \<and> n \<le> 70))"

definition unhex :: "char \<Rightarrow> nat" where
  "unhex c = (let n = (of_char c :: nat) in
     if 48 \<le> n \<and> n \<le> 57 then n - 48
     else if 97 \<le> n \<and> n \<le> 102 then n - 97 + 10
     else if 65 \<le> n \<and> n \<le> 70 then n - 65 + 10
     else 0)"

fun QueryUnescape :: "string \<Rightarrow> string option" where
  "QueryUnescape [] = Some []"
| "QueryUnescape (c # s) =
     (if c = CHR ''%'' then
        (case s of
           a # b # r \<Rightarrow>
             (if ishex a \<and> ishex b
              then map_option ((#) (char_of (unhex a * 16 + unhex b))) (QueryUnescape r)
              else None)
         | _ \<Rightarrow> None)
      else if c = CHR ''+'' then map_option ((#) CHR '' '') (QueryUnescape s)
      else map_option ((#) c) (QueryUnescape s))"

subsection \<open>Data model\<close>

text \<open>\<^verbatim>\<open>model.Icon\<close>.\<close>

record Icon =
  Hash :: string
  MimeType :: string
  Content :: string

text \<open>The errors of the finder, one constructor for each \<^verbatim>\<open>fmt.Errorf\<close> of the
  source, carrying what the message is formatted with. An error of a collaborator
  (\<^verbatim>\<open>%v\<close>, \<^verbatim>\<open>%w\<close>) is its message.\<close>

datatype error =
    DownloadIndexPage string  \<comment> \<open>icon: unable to download website index page: err\<close>
  | DownloadIndexPageStatus int  \<comment> \<open>icon: unable to download website index page: status=\<close>
  | ReadDocument string  \<comment> \<open>icon: unable to read document: err\<close>
  | DownloadIconURL string  \<comment> \<open>icon: unable to download iconURL: err\<close>
  | DownloadIconStatus int  \<comment> \<open>icon: unable to download icon: status=\<close>
  | ReadDownloadedIcon string  \<comment> \<open>icon: unable to read downloaded icon: err\<close>
  | DownloadedIconEmpty string  \<comment> \<open>icon: downloaded icon is empty, iconURL=\<close>
  | JoinBaseURL string  \<comment> \<open>icon: unable to join base URL and path: err\<close>
  | ConvertAbsoluteURL string  \<comment> \<open>icon: unable to convert icon URL to absolute URL: err\<close>
  | MissingDataPrefix string  \<comment> \<open>icon: invalid data URL (missing data:) value\<close>
  | NoComma string  \<comment> \<open>icon: invalid data URL (no comma) value\<close>
  | InvalidMediaType string  \<comment> \<open>icon: invalid media type mediaType\<close>
  | InvalidData string  \<comment> \<open>icon: invalid data value (err)\<close>
  | UnableToDecode string  \<comment> \<open>icon: unable to decode data URL value\<close>
  | UnsupportedEncoding string  \<comment> \<open>icon: unsupported data URL encoding value\<close>
  | EmptyDataURL string  \<comment> \<open>icon: empty data URL value\<close>

subsection \<open>parseImageDataURL\<close>

text \<open>The function is modelled in three parts, in the order of its text. The first
  part is lines 157 to 179: the prefix and comma checks and the split. It returns the
  local variables \<^verbatim>\<open>value\<close> (after \<^verbatim>\<open>value = value[5:]\<close>), \<^verbatim>\<open>mediaType\<close>, \<^verbatim>\<open>encoding\<close>
  and \<^verbatim>\<open>data\<close>. \<^verbatim>\<open>encoding\<close> keeps its zero value, the empty string, in the
  \<^verbatim>\<open>else\<close> branch.\<close>

definition parseImageDataURL_split ::
  "string \<Rightarrow> error + (string \<times> string \<times> string \<times> string)" where
  "parseImageDataURL_split value0 =
     (if \<not> HasPrefix value0 ''data:'' then Inl (MissingDataPrefix value0)
      else
        let value = drop 5 value0;
            comma = Index value '','' in
        if comma < 0 then Inl (NoComma value)
        else
          let data = drop (nat (comma + 1)) value;
              semicolon = Index (slice value 0 comma) '';'' in
          if semicolon > 0
          then Inr (value, slice value 0 semicolon, slice value (semicolon + 1) comma, data)
          else Inr (value, slice value 0 comma, [], data))"

text \<open>The second part is the \<^verbatim>\<open>switch encoding\<close> of lines 185 to 201.\<close>

definition parseImageDataURL_blob :: "string \<Rightarrow> string \<Rightarrow> string \<Rightarrow> error + string" where
  "parseImageDataURL_blob value encoding data =
     (if encoding = ''base64'' then
        (case DecodeString data of
           None \<Rightarrow> Inl (InvalidData value)
         | Some blob \<Rightarrow> Inr blob)
      else if encoding = [] then
        (case QueryUnescape data of
           None \<Rightarrow> Inl (UnableToDecode value)
         | Some decodedData \<Rightarrow> Inr decodedData)
      else Inl (UnsupportedEncoding value))"

text \<open>The whole function. \<open>HashFromBytes\<close> is \<^verbatim>\<open>crypto.HashFromBytes\<close>, which is not
  part of this file of the repository: it is a parameter.\<close>

definition parseImageDataURL :: "(string \<Rightarrow> string) \<Rightarrow> string \<Rightarrow> error + Icon" where
  "parseImageDataURL HashFromBytes value0 =
     (case parseImageDataURL_split value0 of
        Inl err \<Rightarrow> Inl err
      | Inr (value, mediaType, encoding, data) \<Rightarrow>
          if \<not> HasPrefix mediaType ''image/'' then Inl (InvalidMediaType mediaType)
          else
            (case parseImageDataURL_blob value encoding data of
               Inl err \<Rightarrow> Inl err
             | Inr blob \<Rightarrow>
                 if length blob = 0 then Inl (EmptyDataURL value)
                 else Inr \<lparr>Hash = HashFromBytes blob, MimeType = mediaType, Content = blob\<rparr>))"

subsection \<open>The collaborators\<close>

text \<open>An \<^verbatim>\<open>io.Reader\<close>: the bytes it delivers and the error it ends with, if any.
  \<^verbatim>\<open>io.ReadAll\<close> returns the error when there is one (the finder then drops the
  bytes read so far).\<close>

datatype reader = Reader string "string option"

fun ReadAll :: "reader \<Rightarrow> string + string" where
  "ReadAll (Reader bytes None) = Inr bytes"
| "ReadAll (Reader bytes (Some err)) = Inl err"

text \<open>What \<^verbatim>\<open>client.NewClientWithConfig\<close>, \<^verbatim>\<open>WithUserAgent\<close>, \<^verbatim>\<open>WithProxy\<close> and the
  field \<^verbatim>\<open>AllowSelfSignedCertificates\<close> configure before \<^verbatim>\<open>clt.Get()\<close>, and the fields
  of \<^verbatim>\<open>client.Response\<close> that the finder reads.\<close>

record request =
  requestURL :: string
  userAgent :: string
  withProxy :: bool
  allowSelfSignedCertificates :: bool

record response =
  StatusCode :: int
  ContentType :: string
  Body :: reader

text \<open>An HTML document as \<^verbatim>\<open>goquery\<close> holds it: a tree of nodes; an element has a
  tag name, its attributes in source order and its children.\<close>

datatype node =
    Element string "(string \<times> string) list" "node list"
  | TextNode string

text \<open>The collaborators of the finder that are not in this file: the HTTP client
  (its answer may depend on the requests made before), the HTML parser, the digest and
  the URL utilities of \<^verbatim>\<open>urllib\<close>. They are parameters of the model.\<close>

record world =
  Get :: "request list \<Rightarrow> request \<Rightarrow> string + response"
  NewDocumentFromReader :: "reader \<Rightarrow> string + node list"
  HashFromBytes :: "string \<Rightarrow> string"
  RootURL :: "string \<Rightarrow> string"
  JoinBaseURLAndPath :: "string \<Rightarrow> string \<Rightarrow> string + string"
  AbsoluteURL :: "string \<Rightarrow> string \<Rightarrow> string + string"

text \<open>Modelled from the spec: \<^verbatim>\<open>Response.HasServerFailure\<close> of the HTTP client is
  not in this file. The spec calls it the "server failure" predicate over the status
  code, true of a "server-side failure status (5xx-class)".\<close>

definition HasServerFailure :: "response \<Rightarrow> bool" where
  "HasServerFailure r = (500 \<le> StatusCode r \<and> StatusCode r \<le> 599)"

subsection \<open>Selecting elements\<close>

text \<open>The four queries of the finder have the form \<^verbatim>\<open>tag[key='val']\<close>: an element
  matches when it has that tag name and an attribute \<^verbatim>\<open>key\<close> whose value is exactly
  \<^verbatim>\<open>val\<close>. \<^verbatim>\<open>doc.Find\<close> returns the matching descendants of the document in document
  order (depth first, an element before its children).\<close>

datatype selector = TagAttrEquals string string string

fun preorder :: "node \<Rightarrow> node list" where
  "preorder (Element tag attrs children) =
     Element tag attrs children # concat (map preorder children)"
| "preorder (TextNode t) = [TextNode t]"

fun matches :: "selector \<Rightarrow> node \<Rightarrow> bool" where
  "matches (TagAttrEquals t key val) (Element tag attrs children) =
     (tag = t \<and> (key, val) \<in> set attrs)"
| "matches (TagAttrEquals t key val) (TextNode txt) = False"

definition Find :: "node list \<Rightarrow> selector \<Rightarrow> node list" where
  "Find doc query = filter (matches query) (concat (map preorder doc))"

text \<open>\<^verbatim>\<open>Selection.Attr\<close>: the value of the first attribute of that name, and whether
  there is one.\<close>

fun Attr :: "node \<Rightarrow> string \<Rightarrow> string option" where
  "Attr (Element tag attrs children) name = map_of attrs name"
| "Attr (TextNode txt) name = None"

subsection \<open>findIconURLFromHTMLDocument\<close>

definition queries :: "selector list" where
  "queries =
     [TagAttrEquals ''link'' ''rel'' ''shortcut icon'',
      TagAttrEquals ''link'' ''rel'' ''Shortcut Icon'',
      TagAttrEquals ''link'' ''rel'' ''icon shortcut'',
      TagAttrEquals ''link'' ''rel'' ''icon'']"

text \<open>The closure passed to \<^verbatim>\<open>Each\<close>, as a function from the captured variable
  \<^verbatim>\<open>iconURL\<close> and the selected element to the new \<^verbatim>\<open>iconURL\<close>.\<close>

definition each_href :: "string \<Rightarrow> node \<Rightarrow> string" where
  "each_href iconURL s =
     (case Attr s ''href'' of Some href \<Rightarrow> TrimSpace href | None \<Rightarrow> iconURL)"

text \<open>The loop \<^verbatim>\<open>for _, query := range queries\<close> with its \<^verbatim>\<open>break\<close>; the third
  argument is \<^verbatim>\<open>iconURL\<close> on entry.\<close>

fun findIconURL_loop :: "node list \<Rightarrow> selector list \<Rightarrow> string \<Rightarrow> string" where
  "findIconURL_loop doc [] iconURL = iconURL"
| "findIconURL_loop doc (query # rest) iconURL =
     (let iconURL' = foldl each_href iconURL (Find doc query)
      in if iconURL' \<noteq> [] then iconURL' else findIconURL_loop doc rest iconURL')"

definition findIconURLFromHTMLDocument :: "world \<Rightarrow> reader \<Rightarrow> error + string" where
  "findIconURLFromHTMLDocument w body =
     (case NewDocumentFromReader w body of
        Inl err \<Rightarrow> Inl (ReadDocument err)
      | Inr doc \<Rightarrow> Inr (findIconURL_loop doc queries []))"

subsection \<open>Fetching\<close>

text \<open>A function that calls \<^verbatim>\<open>clt.Get()\<close> takes the list of the requests made so
  far and returns it with its own request appended.\<close>

definition fetchHTMLDocumentAndFindIconURL ::
  "world \<Rightarrow> string \<Rightarrow> string \<Rightarrow> bool \<Rightarrow> bool \<Rightarrow> request list
     \<Rightarrow> (error + string) \<times> request list" where
  "fetchHTMLDocumentAndFindIconURL w websiteURL ua fetchViaProxy allowSelfSigned log =
     (let rootURL = RootURL w websiteURL;
          clt = \<lparr>requestURL = rootURL, userAgent = ua, withProxy = fetchViaProxy,
                 allowSelfSignedCertificates = allowSelfSigned\<rparr>
      in (case Get w log clt of
            Inl err \<Rightarrow> Inl (DownloadIndexPage err)
          | Inr response \<Rightarrow>
              if HasServerFailure response
              then Inl (DownloadIndexPageStatus (StatusCode response))
              else findIconURLFromHTMLDocument w (Body response),
          log @ [clt]))"

definition downloadIcon ::
  "world \<Rightarrow> string \<Rightarrow> string \<Rightarrow> bool \<Rightarrow> bool \<Rightarrow> request list
     \<Rightarrow> (error + Icon) \<times> request list" where
  "downloadIcon w iconURL ua fetchViaProxy allowSelfSigned log =
     (let clt = \<lparr>requestURL = iconURL, userAgent = ua, withProxy = fetchViaProxy,
                 allowSelfSignedCertificates = allowSelfSigned\<rparr>
      in (case Get w log clt of
            Inl err \<Rightarrow> Inl (DownloadIconURL err)
          | Inr response \<Rightarrow>
              if HasServerFailure response
              then Inl (DownloadIconStatus (StatusCode response))
              else
                (case ReadAll (Body response) of
                   Inl err \<Rightarrow> Inl (ReadDownloadedIcon err)
                 | Inr body \<Rightarrow>
                     if length body = 0 then Inl (DownloadedIconEmpty iconURL)
                     else Inr \<lparr>Hash = HashFromBytes w body,
                               MimeType = ContentType response,
                               Content = body\<rparr>),
          log @ [clt]))"

subsection \<open>generateIconURL and FindIcon\<close>

definition generateIconURL :: "world \<Rightarrow> string \<Rightarrow> string \<Rightarrow> error + string" where
  "generateIconURL w websiteURL feedIconURL0 =
     (let feedIconURL = TrimSpace feedIconURL0 in
      if feedIconURL = [] then
        (case JoinBaseURLAndPath w (RootURL w websiteURL) ''favicon.ico'' of
           Inl err \<Rightarrow> Inl (JoinBaseURL err)
         | Inr iconURL \<Rightarrow> Inr iconURL)
      else
        (case AbsoluteURL w websiteURL feedIconURL of
           Inl err \<Rightarrow> Inl (ConvertAbsoluteURL err)
         | Inr iconURL \<Rightarrow> Inr iconURL))"

text \<open>The first step of \<^verbatim>\<open>FindIcon\<close> (lines 25 to 30): the candidate icon URL, which
  is the supplied \<^verbatim>\<open>feedIconURL\<close> or, when that is empty, what scanning the page
  gives.\<close>

definition FindIcon_candidate ::
  "world \<Rightarrow> string \<Rightarrow> string \<Rightarrow> string \<Rightarrow> bool \<Rightarrow> bool \<Rightarrow> request list
     \<Rightarrow> (error + string) \<times> request list" where
  "FindIcon_candidate w websiteURL feedIconURL ua fetchViaProxy allowSelfSigned log =
     (if feedIconURL = []
      then fetchHTMLDocumentAndFindIconURL w websiteURL ua fetchViaProxy allowSelfSigned log
      else (Inr feedIconURL, log))"

definition FindIcon ::
  "world \<Rightarrow> string \<Rightarrow> string \<Rightarrow> string \<Rightarrow> bool \<Rightarrow> bool \<Rightarrow> request list
     \<Rightarrow> (error + Icon) \<times> request list" where
  "FindIcon w websiteURL feedIconURL0 ua fetchViaProxy allowSelfSigned log0 =
     (case FindIcon_candidate w websiteURL feedIconURL0 ua fetchViaProxy allowSelfSigned log0 of
        (Inl err, log) \<Rightarrow> (Inl err, log)
      | (Inr feedIconURL, log) \<Rightarrow>
          if HasPrefix feedIconURL ''data:''
          then (parseImageDataURL (HashFromBytes w) feedIconURL, log)
          else
            (case generateIconURL w websiteURL feedIconURL of
               Inl err \<Rightarrow> (Inl err, log)
             | Inr iconURL \<Rightarrow> downloadIcon w iconURL ua fetchViaProxy allowSelfSigned log))"

subsection \<open>What the specification says, for comparison with the code\<close>

text \<open>The split of the segment between \<^verbatim>\<open>data:\<close> and the comma as the
  specification words it: with a semicolon in the segment, the media type is what is
  before the (first) semicolon and the encoding token what is after it; without one,
  the segment is the media type and the encoding token is empty.\<close>

definition claimed_split :: "string \<Rightarrow> string \<times> string" where
  "claimed_split seg =
     (if CHR '';'' \<in> set seg
      then (takeWhile (\<lambda>c. c \<noteq> CHR '';'') seg, tl (dropWhile (\<lambda>c. c \<noteq> CHR '';'') seg))
      else (seg, []))"

text \<open>Standard base64 encoding with padding (\<^verbatim>\<open>base64.StdEncoding.EncodeToString\<close>,
  RFC 4648 section 4), the re-encoding of the round-trip property: three bytes give
  four characters of the alphabet, a last group of two bytes three characters and one
  \<^verbatim>\<open>=\<close>, a last single byte two characters and \<^verbatim>\<open>==\<close>.\<close>

fun EncodeToString :: "string \<Rightarrow> string" where
  "EncodeToString [] = []"
| "EncodeToString [a] =
     (let val = of_char a * 2 ^ 16 in
      [encodeStd ! (val div 2 ^ 18 mod 64), encodeStd ! (val div 2 ^ 12 mod 64),
       CHR ''='', CHR ''=''])"
| "EncodeToString [a, b] =
     (let val = of_char a * 2 ^ 16 + of_char b * 2 ^ 8 in
      [encodeStd ! (val div 2 ^ 18 mod 64), encodeStd ! (val div 2 ^ 12 mod 64),
       encodeStd ! (val div 2 ^ 6 mod 64), CHR ''=''])"
| "EncodeToString (a # b # c # src) =
     (let val = of_char a * 2 ^ 16 + of_char b * 2 ^ 8 + of_char c in
      [encodeStd ! (val div 2 ^ 18 mod 64), encodeStd ! (val div 2 ^ 12 mod 64),
       encodeStd ! (val div 2 ^ 6 mod 64), encodeStd ! (val mod 64)] @ EncodeToString src)"

text \<open>A base64 text has no line breaks when it holds neither \<^verbatim>\<open>\n\<close> nor \<^verbatim>\<open>\r\<close>.
  Its padding bits are zero when, before \<^verbatim>\<open>==\<close>, the last character has its four low
  bits zero and, before a single \<^verbatim>\<open>=\<close>, its two low bits zero (these bits are not part
  of the payload).\<close>

definition noLineBreaks :: "string \<Rightarrow> bool" where
  "noLineBreaks s = (CHR 0x0A \<notin> set s \<and> CHR 0x0D \<notin> set s)"

definition lowBitsZero :: "nat \<Rightarrow> char \<Rightarrow> bool" where
  "lowBitsZero k c = (case decodeMap c of None \<Rightarrow> False | Some v \<Rightarrow> v mod 2 ^ k = 0)"

definition paddingBitsZero :: "string \<Rightarrow> bool" where
  "paddingBitsZero s =
     (case rev s of
        p # q # c # r \<Rightarrow>
          (if p = CHR ''='' \<and> q = CHR ''='' then lowBitsZero 4 c
           else if p = CHR ''='' then lowBitsZero 2 q
           else True)
      | _ \<Rightarrow> True)"

text \<open>One selector pass as the specification words it: the \<^verbatim>\<open>href\<close> of the last
  matching element that has one, trimmed (empty when no match has one); and the scan:
  the result of the first pass that is not empty (empty when there is none).\<close>

definition hrefs :: "node list \<Rightarrow> string list" where
  "hrefs ms = List.map_filter (\<lambda>s. Attr s ''href'') ms"

definition selector_pass :: "node list \<Rightarrow> selector \<Rightarrow> string" where
  "selector_pass doc query =
     (case rev (hrefs (Find doc query)) of [] \<Rightarrow> [] | href # earlier \<Rightarrow> TrimSpace href)"

fun first_nonempty :: "string list \<Rightarrow> string" where
  "first_nonempty [] = []"
| "first_nonempty (u # us) = (if u \<noteq> [] then u else first_nonempty us)"

subsection \<open>A sample site\<close>

text \<open>Concrete collaborators on which the functions can be run: a site
  \<^verbatim>\<open>https://example.org\<close> whose index page parses to the document given, with one
  icon that downloads, one that answers 503 and one that is empty.\<close>

definition link :: "string \<Rightarrow> string \<Rightarrow> node" where
  "link rel href = Element ''link'' [(''rel'', rel), (''href'', href)] []"

definition page :: "node list \<Rightarrow> node list" where
  "page links =
     [Element ''html'' []
        [Element ''head'' [] (Element ''title'' [] [TextNode ''Example''] # links),
         Element ''body'' [] [TextNode ''Hello'']]]"

definition sampleGet :: "request list \<Rightarrow> request \<Rightarrow> string + response" where
  "sampleGet log r =
     (if requestURL r = ''https://example.org''
      then Inr \<lparr>StatusCode = 200, ContentType = ''text/html'', Body = Reader ''<html>'' None\<rparr>
      else if requestURL r = ''https://example.org/b.png''
      then Inr \<lparr>StatusCode = 200, ContentType = ''image/png'', Body = Reader ''PNG'' None\<rparr>
      else if requestURL r = ''https://example.org/favicon.ico''
      then Inr \<lparr>StatusCode = 200, ContentType = ''image/x-icon'', Body = Reader ''ICO'' None\<rparr>
      else if requestURL r = ''https://example.org/down.png''
      then Inr \<lparr>StatusCode = 503, ContentType = ''text/plain'', Body = Reader ''busy'' None\<rparr>
      else if requestURL r = ''https://example.org/empty.png''
      then Inr \<lparr>StatusCode = 200, ContentType = ''image/png'', Body = Reader [] None\<rparr>
      else if requestURL r = ''https://example.org/cut.png''
      then Inr \<lparr>StatusCode = 200, ContentType = ''image/png'',
                Body = Reader ''PN'' (Some ''unexpected EOF'')\<rparr>
      else Inl ''no such host'')"

definition sampleHash :: "string \<Rightarrow> string" where
  "sampleHash bytes = ''#'' @ bytes"

definition sampleWorld :: "node list \<Rightarrow> world" where
  "sampleWorld doc =
     \<lparr>Get = sampleGet,
      NewDocumentFromReader = (\<lambda>body. Inr doc),
      HashFromBytes = sampleHash,
      RootURL = (\<lambda>u. ''https://example.org''),
      JoinBaseURLAndPath = (\<lambda>base path. Inr (base @ ''/'' @ path)),
      AbsoluteURL = (\<lambda>base u. Inr (''https://example.org'' @ u))\<rparr>"

section \<open>Properties\<close>

subsection \<open>Indices and the split of a data URL\<close>

lemma Index_notin: "c \<notin> set s \<Longrightarrow> Index s [c] = - 1"
  by (induction s) auto

lemma Index_first: "c \<notin> set s \<Longrightarrow> Index (s @ c # r) [c] = int (length s)"
  by (induction s) auto

lemma Index_range: "- 1 \<le> Index s sub \<and> Index s sub \<le> int (length s)"
  by (induction s) (auto simp: Let_def)

text \<open>The indices at which \<^verbatim>\<open>parseImageDataURL\<close> slices are in range, so the slice
  expressions of the source do not panic.\<close>

lemma Index_less: "0 \<le> Index s [c] \<Longrightarrow> Index s [c] < int (length s)"
  by (induction s) (auto simp: Let_def split: if_splits)

lemma split_indices_in_range:
  assumes "0 \<le> Index s '',''"
  shows "Index s '','' + 1 \<le> int (length s)"
    and "0 < Index (slice s 0 (Index s '','')) '';'' \<Longrightarrow>
           Index (slice s 0 (Index s '','')) '';'' + 1 \<le> Index s '',''"
proof -
  from assms Index_less [of s "CHR '',''"]
  show c: "Index s '','' + 1 \<le> int (length s)" by simp
  assume "0 < Index (slice s 0 (Index s '','')) '';''"
  with Index_less [of "slice s 0 (Index s '','')" "CHR '';''"] c assms
  show "Index (slice s 0 (Index s '','')) '';'' + 1 \<le> Index s '',''"
    by (simp add: slice_def)
qed

lemma split_data_prefix:
  "parseImageDataURL_split (''data:'' @ rest) =
     (let comma = Index rest '','' in
      if comma < 0 then Inl (NoComma rest)
      else
        let data = drop (nat (comma + 1)) rest;
            semicolon = Index (slice rest 0 comma) '';'' in
        if semicolon > 0
        then Inr (rest, slice rest 0 semicolon, slice rest (semicolon + 1) comma, data)
        else Inr (rest, slice rest 0 comma, [], data))"
  by (simp add: parseImageDataURL_split_def HasPrefix_def)

lemma split_segment:
  assumes "CHR '','' \<notin> set seg"
  shows "parseImageDataURL_split (''data:'' @ seg @ '','' @ data) =
     (let semicolon = Index seg '';'' in
        if semicolon > 0
        then Inr (seg @ '','' @ data, take (nat semicolon) seg, drop (nat semicolon + 1) seg, data)
        else Inr (seg @ '','' @ data, seg, [], data))"
proof -
  have c: "Index (seg @ CHR '','' # data) [CHR '',''] = int (length seg)"
    using assms by (rule Index_first)
  have r: "Index seg '';'' \<le> int (length seg)"
    using Index_range [of seg "'';''"] by simp
  have s1: "0 < i \<Longrightarrow> i \<le> int (length seg) \<Longrightarrow>
      slice (seg @ CHR '','' # data) (i + 1) (int (length seg)) = drop (nat i + 1) seg" for i
    by (simp add: slice_def nat_add_distrib)
  have s2: "i \<le> int (length seg) \<Longrightarrow> slice (seg @ CHR '','' # data) 0 i = take (nat i) seg" for i
    by (simp add: slice_def)
  have s3: "drop (nat (int (length seg) + 1)) (seg @ CHR '','' # data) = data"
    by (simp add: nat_add_distrib)
  show ?thesis
    unfolding split_data_prefix
    using r by (simp add: c s1 s2 s3 Let_def del: drop_append)
qed


lemma Index_neg_iff: "Index s [c] < 0 \<longleftrightarrow> c \<notin> set s"
  by (induction s) (auto simp: Let_def)

lemma Index_zero_iff: "Index s [c] = 0 \<longleftrightarrow> prefix [c] s"
proof (cases s)
  case Nil
  then show ?thesis by simp
next
  case (Cons a list)
  with Index_neg_iff [of list c] show ?thesis
    by (auto simp: Let_def)
qed

lemma split_no_semicolon:
  assumes "CHR '','' \<notin> set seg" and "CHR '';'' \<notin> set seg"
  shows "parseImageDataURL_split (''data:'' @ seg @ '','' @ data) =
           Inr (seg @ '','' @ data, seg, [], data)"
  using split_segment [OF assms(1), of data] assms(2) by (simp add: Index_notin)

lemma split_leading_semicolon:
  assumes "CHR '','' \<notin> set seg" and "prefix '';'' seg"
  shows "parseImageDataURL_split (''data:'' @ seg @ '','' @ data) =
           Inr (seg @ '','' @ data, seg, [], data)"
proof -
  from assms(2) have "Index seg '';'' = 0" by (simp add: Index_zero_iff)
  with split_segment [OF assms(1), of data] show ?thesis by simp
qed

lemma split_semicolon:
  assumes "CHR '','' \<notin> set (mt @ enc)" and "CHR '';'' \<notin> set mt" and "mt \<noteq> []"
  shows "parseImageDataURL_split (''data:'' @ mt @ '';'' @ enc @ '','' @ data) =
           Inr (mt @ '';'' @ enc @ '','' @ data, mt, enc, data)"
proof -
  have c: "CHR '','' \<notin> set (mt @ '';'' @ enc)" using assms(1) by simp
  have i: "Index (mt @ CHR '';'' # enc) '';'' = int (length mt)"
    using assms(2) by (rule Index_first)
  show ?thesis
    using split_segment [OF c, of data] assms(3) by (simp add: i)
qed

lemma split_claimed:
  assumes "CHR '','' \<notin> set seg" and "\<not> prefix '';'' seg"
  shows "parseImageDataURL_split (''data:'' @ seg @ '','' @ data) =
           Inr (seg @ '','' @ data, fst (claimed_split seg), snd (claimed_split seg), data)"
proof (cases "CHR '';'' \<in> set seg")
  case False
  with split_no_semicolon [OF assms(1), of data] show ?thesis
    by (simp add: claimed_split_def)
next
  case True
  then obtain mt enc where seg: "seg = mt @ CHR '';'' # enc" and mt: "CHR '';'' \<notin> set mt"
    by (auto dest: split_list_first)
  from assms(2) seg have ne: "mt \<noteq> []" by auto
  from assms(1) seg have c: "CHR '','' \<notin> set (mt @ enc)" by simp
  from mt have all: "\<forall>x\<in>set mt. x \<noteq> CHR '';''" by auto
  have t: "takeWhile (\<lambda>c. c \<noteq> CHR '';'') seg = mt"
    using all by (simp add: seg takeWhile_append2)
  have d: "dropWhile (\<lambda>c. c \<noteq> CHR '';'') seg = CHR '';'' # enc"
    using all by (simp add: seg dropWhile_append2)
  show ?thesis
    using split_semicolon [OF c mt ne, of data] True
    by (simp add: claimed_split_def t [unfolded seg] d [unfolded seg] seg)
qed

subsection \<open>Base64: decoding and encoding again\<close>

lemma div_mult_add: "r < k \<Longrightarrow> (q * k + r) div k = (q::nat)"
  by simp

lemma mod_mult_add: "r < k \<Longrightarrow> (q * k + r) mod k = (r::nat)"
  by simp

lemma sextets:
  fixes v0 v1 v2 v3 :: nat
  assumes "v0 < 64" "v1 < 64" "v2 < 64" "v3 < 64"
  defines "val \<equiv> v0 * 262144 + v1 * 4096 + v2 * 64 + v3"
  shows "val div 262144 mod 64 = v0" "val div 4096 mod 64 = v1"
        "val div 64 mod 64 = v2" "val mod 64 = v3" "val < 16777216"
proof -
  have e18: "val = v0 * 262144 + (v1 * 4096 + v2 * 64 + v3)" by (simp add: val_def)
  have e12: "val = (v0 * 64 + v1) * 4096 + (v2 * 64 + v3)" by (simp add: val_def)
  have e6: "val = ((v0 * 64 + v1) * 64 + v2) * 64 + v3" by (simp add: val_def)
  have r18: "v1 * 4096 + v2 * 64 + v3 < 262144" using assms(2-4) by simp
  have r12: "v2 * 64 + v3 < 4096" using assms(3-4) by simp
  have "val div 262144 = v0" unfolding e18 using r18 by (rule div_mult_add)
  then show "val div 262144 mod 64 = v0" using assms(1) by simp
  have "val div 4096 = v0 * 64 + v1" unfolding e12 using r12 by (rule div_mult_add)
  moreover have "(v0 * 64 + v1) mod 64 = v1" using assms(2) by (rule mod_mult_add)
  ultimately show "val div 4096 mod 64 = v1" by simp
  have "val div 64 = (v0 * 64 + v1) * 64 + v2" unfolding e6 using assms(4) by (rule div_mult_add)
  moreover have "((v0 * 64 + v1) * 64 + v2) mod 64 = v2" using assms(3) by (rule mod_mult_add)
  ultimately show "val div 64 mod 64 = v2" by simp
  show "val mod 64 = v3" unfolding e6 using assms(4) by (rule mod_mult_add)
  show "val < 16777216" unfolding e18 using r18 assms(1) by simp
qed

lemma bytes24:
  fixes n :: nat
  assumes "n < 16777216"
  shows "(n div 65536 mod 256) * 65536 + (n div 256 mod 256) * 256 + n mod 256 = n"
proof -
  have m: "n mod 65536 = 256 * (n div 256 mod 256) + n mod 256"
    using mod_mult2_eq [of n 256 256] by simp
  have "n div 65536 < 256" using assms by (simp add: less_mult_imp_div_less)
  then have a: "n div 65536 mod 256 = n div 65536" by simp
  show ?thesis
    using m div_mult_mod_eq [of n 65536] by (simp add: a)
qed

lemma index_of_Some: "index_of xs c = Some i \<Longrightarrow> i < length xs \<and> xs ! i = c"
  by (induction xs arbitrary: i) (auto split: if_splits)

lemma decodeMap_Some: "decodeMap c = Some v \<Longrightarrow> v < 64 \<and> encodeStd ! v = c"
  using index_of_Some [of encodeStd c v] by (simp add: decodeMap_def) (simp add: encodeStd_def)

lemma decodeMap_pad: "decodeMap CHR ''='' = None"
  by (simp add: decodeMap_def encodeStd_def)

lemma of_char_quantum:
  "of_char (char_of (n::nat)) = n mod 256"
  by (simp add: of_char_of)

lemma quantumBytes4:
  "quantumBytes [v0, v1, v2, v3] =
     [char_of ((v0 * 262144 + v1 * 4096 + v2 * 64 + v3) div 65536),
      char_of ((v0 * 262144 + v1 * 4096 + v2 * 64 + v3) div 256),
      char_of (v0 * 262144 + v1 * 4096 + v2 * 64 + v3)]"
proof -
  have r: "[v0, v1, v2, v3] @ replicate (4 - length [v0, v1, v2, v3]) 0 = [v0, v1, v2, v3]"
    by simp
  have t: "take (length [v0, v1, v2, v3] - 1) [a, b, c] = [a, b, c]" for a b c :: char
    by simp
  show ?thesis unfolding quantumBytes_def Let_def r t by simp
qed

lemma quantumBytes3:
  "quantumBytes [v0, v1, v2] =
     [char_of ((v0 * 262144 + v1 * 4096 + v2 * 64 + 0) div 65536),
      char_of ((v0 * 262144 + v1 * 4096 + v2 * 64 + 0) div 256)]"
proof -
  have r: "[v0, v1, v2] @ replicate (4 - length [v0, v1, v2]) 0 = [v0, v1, v2, 0]"
    by simp
  have t: "take (length [v0, v1, v2] - 1) [a, b, c] = [a, b]" for a b c :: char
    by simp
  show ?thesis unfolding quantumBytes_def Let_def r t by simp
qed

lemma quantumBytes2:
  "quantumBytes [v0, v1] =
     [char_of ((v0 * 262144 + v1 * 4096 + 0 * 64 + 0) div 65536)]"
proof -
  have r: "[v0, v1] @ replicate (4 - length [v0, v1]) 0 = [v0, v1, 0, 0]"
    by (simp add: numeral_eq_Suc)
  have t: "take (length [v0, v1] - 1) [a, b, c] = [a]" for a b c :: char
    by simp
  show ?thesis unfolding quantumBytes_def Let_def r t by simp
qed

lemma EncodeToString3:
  "of_char a * 65536 + of_char b * 256 + of_char c = (n::nat) \<Longrightarrow>
   EncodeToString (a # b # c # rest) =
     [encodeStd ! (n div 262144 mod 64), encodeStd ! (n div 4096 mod 64),
      encodeStd ! (n div 64 mod 64), encodeStd ! (n mod 64)] @ EncodeToString rest"
  by (auto simp: Let_def)

lemma EncodeToString2:
  "of_char a * 65536 + of_char b * 256 = (n::nat) \<Longrightarrow>
   EncodeToString [a, b] =
     [encodeStd ! (n div 262144 mod 64), encodeStd ! (n div 4096 mod 64),
      encodeStd ! (n div 64 mod 64), CHR ''='']"
  by (auto simp: Let_def)

lemma EncodeToString1:
  "of_char a * 65536 = (n::nat) \<Longrightarrow>
   EncodeToString [a] =
     [encodeStd ! (n div 262144 mod 64), encodeStd ! (n div 4096 mod 64),
      CHR ''='', CHR ''='']"
  by (auto simp: Let_def)

lemma encode_quantum4:
  assumes "v0 < 64" "v1 < 64" "v2 < 64" "v3 < 64"
  shows "EncodeToString (quantumBytes [v0, v1, v2, v3] @ rest) =
           [encodeStd ! v0, encodeStd ! v1, encodeStd ! v2, encodeStd ! v3] @ EncodeToString rest"
proof -
  define val where "val = v0 * 262144 + v1 * 4096 + v2 * 64 + v3"
  note s = sextets [OF assms, folded val_def]
  have b: "of_char (char_of (val div 65536)) * 65536 + of_char (char_of (val div 256)) * 256
             + of_char (char_of val) = val"
    unfolding of_char_quantum using s(5) by (rule bytes24)
  have q: "quantumBytes [v0, v1, v2, v3] @ rest =
             char_of (val div 65536) # char_of (val div 256) # char_of val # rest"
    unfolding quantumBytes4 val_def by simp
  show ?thesis
    unfolding q EncodeToString3 [OF b] s(1-4) ..
qed

lemma encode_quantum3:
  assumes "v0 < 64" "v1 < 64" "v2 < 64" "v2 mod 4 = 0"
  shows "EncodeToString (quantumBytes [v0, v1, v2]) =
           [encodeStd ! v0, encodeStd ! v1, encodeStd ! v2, CHR ''='']"
proof -
  define val where "val = v0 * 262144 + v1 * 4096 + v2 * 64 + 0"
  have z: "(0::nat) < 64" by simp
  note s = sextets [OF assms(1-3) z, folded val_def]
  from assms(4) obtain k where k: "v2 = 4 * k" by (auto simp: mod_eq_0_iff_dvd)
  have "val = (v0 * 1024 + v1 * 16 + k) * 256" by (simp add: val_def k)
  then have m: "val mod 256 = 0" by simp
  have b: "of_char (char_of (val div 65536)) * 65536 + of_char (char_of (val div 256)) * 256 = val"
    unfolding of_char_quantum using bytes24 [OF s(5)] by (simp only: m add_0_right)
  have q: "quantumBytes [v0, v1, v2] = [char_of (val div 65536), char_of (val div 256)]"
    unfolding quantumBytes3 val_def ..
  show ?thesis
    unfolding q EncodeToString2 [OF b] s(1-4) ..
qed

lemma encode_quantum2:
  assumes "v0 < 64" "v1 < 64" "v1 mod 16 = 0"
  shows "EncodeToString (quantumBytes [v0, v1]) =
           [encodeStd ! v0, encodeStd ! v1, CHR ''='', CHR ''='']"
proof -
  define val where "val = v0 * 262144 + v1 * 4096 + 0 * 64 + 0"
  have z: "(0::nat) < 64" by simp
  note s = sextets [OF assms(1-2) z z, folded val_def]
  from assms(3) obtain k where k: "v1 = 16 * k" by (auto simp: mod_eq_0_iff_dvd)
  have e: "val = (v0 * 4 + k) * 65536" by (simp add: val_def k)
  have d: "val div 65536 = v0 * 4 + k" unfolding e by simp
  have "val div 65536 < 256" using s(5) by (simp add: less_mult_imp_div_less)
  then have "val div 65536 mod 256 = v0 * 4 + k" unfolding d by simp
  then have b: "of_char (char_of (val div 65536)) * 65536 = val"
    unfolding of_char_quantum e by (simp only:)
  have q: "quantumBytes [v0, v1] = [char_of (val div 65536)]"
    unfolding quantumBytes2 val_def ..
  show ?thesis
    unfolding q EncodeToString1 [OF b] s(1-4) ..
qed

lemma skipNewlines_id: "noLineBreaks s \<Longrightarrow> skipNewlines s = s"
  by (cases s) (auto simp: noLineBreaks_def)

lemma decodeQuantum_cases:
  assumes nl: "noLineBreaks src" and dec: "decodeQuantum [] src = Some blob" and ne: "src \<noteq> []"
  obtains
    (full) c0 c1 c2 c3 r v0 v1 v2 v3 blob' where
      "src = c0 # c1 # c2 # c3 # r" "decodeMap c0 = Some v0" "decodeMap c1 = Some v1"
      "decodeMap c2 = Some v2" "decodeMap c3 = Some v3"
      "decodeQuantum [] r = Some blob'" "blob = quantumBytes [v0, v1, v2, v3] @ blob'"
  | (pad1) c0 c1 c2 v0 v1 v2 where
      "src = [c0, c1, c2, CHR ''='']" "decodeMap c0 = Some v0" "decodeMap c1 = Some v1"
      "decodeMap c2 = Some v2" "blob = quantumBytes [v0, v1, v2]"
  | (pad2) c0 c1 v0 v1 where
      "src = [c0, c1, CHR ''='', CHR ''='']" "decodeMap c0 = Some v0" "decodeMap c1 = Some v1"
      "blob = quantumBytes [v0, v1]"
proof -
  from ne obtain c0 r0 where s0: "src = c0 # r0" by (cases src) auto
  from nl s0 have n0: "c0 \<noteq> CHR 0x0A" "c0 \<noteq> CHR 0x0D" "noLineBreaks r0"
    by (auto simp: noLineBreaks_def)
  from dec s0 n0 obtain v0 where v0: "decodeMap c0 = Some v0"
    by (cases "decodeMap c0") (auto split: if_splits)
  with dec s0 have d1: "decodeQuantum [v0] r0 = Some blob" by simp
  then obtain c1 r1 where s1: "r0 = c1 # r1" by (cases r0) auto
  from n0 s1 have n1: "c1 \<noteq> CHR 0x0A" "c1 \<noteq> CHR 0x0D" "noLineBreaks r1"
    by (auto simp: noLineBreaks_def)
  from d1 s1 n1 obtain v1 where v1: "decodeMap c1 = Some v1"
    by (cases "decodeMap c1") (auto split: if_splits)
  with d1 s1 have d2: "decodeQuantum [v0, v1] r1 = Some blob" by simp
  then obtain c2 r2 where s2: "r1 = c2 # r2" by (cases r1) auto
  from n1 s2 have n2: "c2 \<noteq> CHR 0x0A" "c2 \<noteq> CHR 0x0D" "noLineBreaks r2"
    by (auto simp: noLineBreaks_def)
  show thesis
  proof (cases "decodeMap c2")
    case None
    with d2 s2 n2 have c2: "c2 = CHR ''=''" by (auto split: if_splits)
    from d2 s2 None c2 n2 have "r2 = [CHR ''='']" "blob = quantumBytes [v0, v1]"
      by (auto simp: skipNewlines_id noLineBreaks_def split: if_splits list.splits)
    with s0 s1 s2 c2 v0 v1 show thesis by (intro pad2) auto
  next
    case (Some v2)
    with d2 s2 have d3: "decodeQuantum [v0, v1, v2] r2 = Some blob" by simp
    then obtain c3 r3 where s3: "r2 = c3 # r3" by (cases r2) auto
    from n2 s3 have n3: "c3 \<noteq> CHR 0x0A" "c3 \<noteq> CHR 0x0D" "noLineBreaks r3"
      by (auto simp: noLineBreaks_def)
    show thesis
    proof (cases "decodeMap c3")
      case None
      with d3 s3 n3 have c3: "c3 = CHR ''=''" by (auto split: if_splits)
      from d3 s3 None c3 n3 have "r3 = []" "blob = quantumBytes [v0, v1, v2]"
        by (auto simp: skipNewlines_id split: if_splits)
      with s0 s1 s2 s3 c3 v0 v1 Some show thesis by (intro pad1) auto
    next
      case v3: (Some v3)
      with d3 s3 obtain blob' where "decodeQuantum [] r3 = Some blob'"
        "blob = quantumBytes [v0, v1, v2, v3] @ blob'" by auto
      with s0 s1 s2 s3 v0 v1 Some v3 show thesis by (intro full) auto
    qed
  qed
qed


lemma paddingBitsZero_append:
  assumes "3 \<le> length r"
  shows "paddingBitsZero (pre @ r) = paddingBitsZero r"
proof -
  define rr where "rr = rev r"
  with assms have "3 \<le> length rr" by simp
  then obtain p q c t where "rr = p # q # c # t"
    by (auto simp: numeral_3_eq_3 Suc_le_length_iff)
  then have "rev r = p # q # c # t" by (simp add: rr_def)
  then show ?thesis by (simp add: paddingBitsZero_def)
qed

lemma decode_encode_roundtrip:
  "noLineBreaks src \<Longrightarrow> paddingBitsZero src \<Longrightarrow> decodeQuantum [] src = Some blob
     \<Longrightarrow> EncodeToString blob = src"
proof (induction src arbitrary: blob rule: length_induct)
  case (1 src)
  show ?case
  proof (cases "src = []")
    case True
    with "1.prems" show ?thesis by simp
  next
    case False
    from "1.prems"(1,3) False show ?thesis
    proof (cases rule: decodeQuantum_cases)
      case (full c0 c1 c2 c3 r v0 v1 v2 v3 blob')
      from full(1) "1.prems"(1) have nr: "noLineBreaks r" by (simp add: noLineBreaks_def)
      have pr: "paddingBitsZero r"
      proof (cases "r = []")
        case True
        then show ?thesis by (simp add: paddingBitsZero_def)
      next
        case False
        with nr full(6) have "3 \<le> length r"
          by (cases rule: decodeQuantum_cases) auto
        from paddingBitsZero_append [OF this, of "[c0, c1, c2, c3]"] "1.prems"(2) full(1)
        show ?thesis by simp
      qed
      from full(1) have "length r < length src" by simp
      with "1.IH" nr pr full(6) have ih: "EncodeToString blob' = r" by blast
      from full(2-5) have "v0 < 64" "v1 < 64" "v2 < 64" "v3 < 64"
        "encodeStd ! v0 = c0" "encodeStd ! v1 = c1" "encodeStd ! v2 = c2" "encodeStd ! v3 = c3"
        by (auto dest: decodeMap_Some)
      with encode_quantum4 [of v0 v1 v2 v3 blob'] ih full(1,7) show ?thesis by simp
    next
      case (pad1 c0 c1 c2 v0 v1 v2)
      from pad1(1,4) "1.prems"(2) have "v2 mod 4 = 0"
        by (auto simp: paddingBitsZero_def lowBitsZero_def decodeMap_pad split: if_splits)
      moreover from pad1(2-4) have "v0 < 64" "v1 < 64" "v2 < 64"
        "encodeStd ! v0 = c0" "encodeStd ! v1 = c1" "encodeStd ! v2 = c2"
        by (auto dest: decodeMap_Some)
      ultimately show ?thesis using encode_quantum3 [of v0 v1 v2] pad1(1,5) by simp
    next
      case (pad2 c0 c1 v0 v1)
      from pad2(1,3) "1.prems"(2) have "v1 mod 16 = 0"
        by (auto simp: paddingBitsZero_def lowBitsZero_def split: if_splits)
      moreover from pad2(2-3) have "v0 < 64" "v1 < 64"
        "encodeStd ! v0 = c0" "encodeStd ! v1 = c1"
        by (auto dest: decodeMap_Some)
      ultimately show ?thesis using encode_quantum2 [of v0 v1] pad2(1,4) by simp
    qed
  qed
qed

subsection \<open>Trimming and the selector passes\<close>

lemma TrimLeftSpace_none: "leadingSpace s = 0 \<Longrightarrow> TrimLeftSpace s = s"
  by (simp add: TrimLeftSpace.simps)

lemma TrimRightSpace_none: "trailingSpace s = 0 \<Longrightarrow> TrimRightSpace s = s"
  by (simp add: TrimRightSpace.simps)

lemma TrimLeftSpace_some:
  "leadingSpace s \<noteq> 0 \<Longrightarrow> TrimLeftSpace s = TrimLeftSpace (drop (leadingSpace s) s)"
  by (subst TrimLeftSpace.simps) simp

lemma TrimRightSpace_some:
  "trailingSpace s \<noteq> 0 \<Longrightarrow>
   TrimRightSpace s = TrimRightSpace (take (length s - trailingSpace s) s)"
  by (subst TrimRightSpace.simps) simp

lemmas trim_eval = TrimSpace_def TrimLeftSpace_none TrimRightSpace_none TrimLeftSpace_some
  TrimRightSpace_some leadingSpace_def trailingSpace_def spaceRunes_def suffix_to_prefix

lemma TrimSpace_Nil: "TrimSpace [] = []"
  by (simp add: trim_eval)

lemma hrefs_snoc:
  "hrefs (ms @ [m]) = hrefs ms @ (case Attr m ''href'' of None \<Rightarrow> [] | Some h \<Rightarrow> [h])"
  by (simp add: hrefs_def map_filter_def split: option.splits)

lemma foldl_each_href:
  "foldl each_href iconURL ms =
     (case rev (hrefs ms) of [] \<Rightarrow> iconURL | href # earlier \<Rightarrow> TrimSpace href)"
proof (induction ms rule: rev_induct)
  case Nil
  show ?case by (simp add: hrefs_def map_filter_def)
next
  case (snoc m ms)
  show ?case
  proof (cases "Attr m ''href''")
    case None
    with snoc show ?thesis by (simp add: hrefs_snoc each_href_def)
  next
    case (Some h)
    then show ?thesis by (simp add: hrefs_snoc each_href_def)
  qed
qed

lemma pass_from_empty: "foldl each_href [] (Find doc query) = selector_pass doc query"
  by (simp add: foldl_each_href selector_pass_def)

lemma loop_first_nonempty:
  "findIconURL_loop doc qs [] = first_nonempty (map (selector_pass doc) qs)"
  by (induction qs) (simp_all add: pass_from_empty Let_def)

lemma pass_no_match: "Find doc query = [] \<Longrightarrow> selector_pass doc query = []"
  by (simp add: selector_pass_def hrefs_def map_filter_def)

lemma first_nonempty_all_empty: "\<forall>u\<in>set us. u = [] \<Longrightarrow> first_nonempty us = []"
  by (induction us) auto

lemmas doc_eval = Find_def page_def link_def hrefs_def map_filter_def selector_pass_def queries_def

subsection \<open>Evaluating the parser on concrete input\<close>

lemmas parse_eval = parseImageDataURL_def parseImageDataURL_split_def parseImageDataURL_blob_def
  HasPrefix_def slice_def DecodeString_def decodeMap_def encodeStd_def quantumBytes_def Let_def
  char_of_def bit_iff_odd ishex_def unhex_def sampleHash_def

lemmas world_eval = sampleWorld_def sampleGet_def sampleHash_def HasServerFailure_def

lemmas find_eval = FindIcon_candidate_def fetchHTMLDocumentAndFindIconURL_def
  findIconURLFromHTMLDocument_def loop_first_nonempty

lemma scan_urllib:
  "findIconURLFromHTMLDocument (w\<lparr>JoinBaseURLAndPath := j, AbsoluteURL := r\<rparr>) body =
   findIconURLFromHTMLDocument w body"
  by (simp add: findIconURLFromHTMLDocument_def)

lemma candidate_urllib:
  "FindIcon_candidate (w\<lparr>JoinBaseURLAndPath := j, AbsoluteURL := r\<rparr>) websiteURL feedIconURL ua
      fetchViaProxy allowSelfSigned log =
   FindIcon_candidate w websiteURL feedIconURL ua fetchViaProxy allowSelfSigned log"
  by (auto simp: FindIcon_candidate_def fetchHTMLDocumentAndFindIconURL_def scan_urllib Let_def
        split: sum.splits)

lemma candidate_log:
  "snd (FindIcon_candidate w websiteURL feedIconURL ua fetchViaProxy allowSelfSigned log) =
     (if feedIconURL = [] then
        log @ [\<lparr>requestURL = RootURL w websiteURL, userAgent = ua, withProxy = fetchViaProxy,
                 allowSelfSignedCertificates = allowSelfSigned\<rparr>]
      else log)"
  by (simp add: FindIcon_candidate_def fetchHTMLDocumentAndFindIconURL_def Let_def)

lemmas unescape_eval = ishex_def unhex_def char_of_def bit_iff_odd

lemma parse_content: "parseImageDataURL h v = Inr icon \<Longrightarrow> Content icon \<noteq> []"
  by (auto simp: parseImageDataURL_def split: sum.splits prod.splits if_splits)

lemma download_content:
  "fst (downloadIcon w iconURL ua p a log) = Inr icon \<Longrightarrow> Content icon \<noteq> []"
  by (auto simp: downloadIcon_def Let_def split: sum.splits if_splits)

lemma FindIcon_content:
  "fst (FindIcon w websiteURL feedIconURL ua p a log) = Inr icon \<Longrightarrow> Content icon \<noteq> []"
  by (auto simp: FindIcon_def split: sum.splits prod.splits if_splits
        dest: parse_content download_content)

subsection \<open>C1: no icon with empty content\<close>

text \<open>C1: an icon that \<^verbatim>\<open>FindIcon\<close> returns has content that is not empty, and so has
  one that \<^verbatim>\<open>parseImageDataURL\<close> or \<^verbatim>\<open>downloadIcon\<close> returns: when the payload of a data
  URL decodes to no bytes, and when the body that was downloaded has no bytes, the
  result is an error.\<close>

theorem icon_content_nonempty:
  "(fst (FindIcon w websiteURL feedIconURL ua fetchViaProxy allowSelfSigned log) = Inr icon
      \<longrightarrow> Content icon \<noteq> [])
   \<and> (parseImageDataURL h v = Inr icon \<longrightarrow> Content icon \<noteq> [])
   \<and> (fst (downloadIcon w iconURL ua fetchViaProxy allowSelfSigned log) = Inr icon
      \<longrightarrow> Content icon \<noteq> [])
   \<and> (parseImageDataURL_split v = Inr (value, mediaType, encoding, data)
        \<and> parseImageDataURL_blob value encoding data = Inr []
      \<longrightarrow> isl (parseImageDataURL h v))
   \<and> (Get w log \<lparr>requestURL = iconURL, userAgent = ua, withProxy = fetchViaProxy,
                   allowSelfSignedCertificates = allowSelfSigned\<rparr> = Inr response
        \<and> ReadAll (Body response) = Inr []
      \<longrightarrow> isl (fst (downloadIcon w iconURL ua fetchViaProxy allowSelfSigned log)))"
  using FindIcon_content [of w websiteURL feedIconURL ua fetchViaProxy allowSelfSigned log icon]
    parse_content [of h v icon]
    download_content [of w iconURL ua fetchViaProxy allowSelfSigned log icon]
  by (auto simp: parseImageDataURL_def downloadIcon_def Let_def)

theorem icon_content_nonempty_witness:
  "fst (FindIcon (sampleWorld (page [link ''icon'' ''/b.png''])) ''https://example.org/blog'' []
         ''ua'' False False []) =
     Inr \<lparr>Hash = ''#PNG'', MimeType = ''image/png'', Content = ''PNG''\<rparr>
   \<and> Content \<lparr>Hash = ''#PNG'', MimeType = ''image/png'', Content = ''PNG''\<rparr> \<noteq> []
   \<and> parseImageDataURL sampleHash ''data:image/png;base64,QUJD'' =
     Inr \<lparr>Hash = ''#ABC'', MimeType = ''image/png'', Content = ''ABC''\<rparr>
   \<and> Content \<lparr>Hash = ''#ABC'', MimeType = ''image/png'', Content = ''ABC''\<rparr> \<noteq> []
   \<and> isl (parseImageDataURL sampleHash ''data:image/png;base64,'')
   \<and> isl (fst (downloadIcon (sampleWorld []) ''https://example.org/empty.png'' ''ua'' False False []))"
proof -
  let ?w = "sampleWorld (page [link ''icon'' ''/b.png''])"
  let ?png = "\<lparr>Hash = ''#PNG'', MimeType = ''image/png'', Content = ''PNG''\<rparr>"
  let ?abc = "\<lparr>Hash = ''#ABC'', MimeType = ''image/png'', Content = ''ABC''\<rparr>"
  have f: "fst (FindIcon ?w ''https://example.org/blog'' [] ''ua'' False False []) = Inr ?png"
    by (simp add: FindIcon_def find_eval world_eval doc_eval trim_eval HasPrefix_def
          generateIconURL_def downloadIcon_def Let_def)
  have p: "parseImageDataURL sampleHash ''data:image/png;base64,QUJD'' = Inr ?abc"
    by (simp add: parse_eval)
  have s: "parseImageDataURL_split ''data:image/png;base64,'' =
             Inr (''image/png;base64,'', ''image/png'', ''base64'', [])"
          "parseImageDataURL_blob ''image/png;base64,'' ''base64'' [] = Inr []"
    by (simp_all add: parse_eval)
  have g: "Get (sampleWorld []) [] \<lparr>requestURL = ''https://example.org/empty.png'',
              userAgent = ''ua'', withProxy = False, allowSelfSignedCertificates = False\<rparr> =
             Inr \<lparr>StatusCode = 200, ContentType = ''image/png'', Body = Reader [] None\<rparr>"
          "ReadAll (Body \<lparr>StatusCode = 200, ContentType = ''image/png'', Body = Reader [] None\<rparr>)
             = Inr []"
    by (simp_all add: world_eval)
  from icon_content_nonempty [where w = ?w and websiteURL = "''https://example.org/blog''"
      and feedIconURL = "[]" and ua = "''ua''" and fetchViaProxy = False and allowSelfSigned = False
      and log = "[]" and icon = ?png] f
  have 1: "Content ?png \<noteq> []" by blast
  from icon_content_nonempty [where h = sampleHash and v = "''data:image/png;base64,QUJD''"
      and icon = ?abc] p
  have 2: "Content ?abc \<noteq> []" by blast
  from icon_content_nonempty [where h = sampleHash and v = "''data:image/png;base64,''"] s
  have 3: "isl (parseImageDataURL sampleHash ''data:image/png;base64,'')" by blast
  from icon_content_nonempty [where w = "sampleWorld []" and log = "[]"
      and iconURL = "''https://example.org/empty.png''" and ua = "''ua''"
      and fetchViaProxy = False and allowSelfSigned = False] g
  have 4: "isl (fst (downloadIcon (sampleWorld []) ''https://example.org/empty.png'' ''ua''
                  False False []))" by blast
  from f p 1 2 3 4 show ?thesis by blast
qed

subsection \<open>C2: the priority of the selectors\<close>

text \<open>C2: for every document that parses, the result of the scan is the result of
  the first of the four selector passes, taken in the order
  \<^verbatim>\<open>link[rel='shortcut icon']\<close>, \<^verbatim>\<open>link[rel='Shortcut Icon']\<close>, \<^verbatim>\<open>link[rel='icon shortcut']\<close>,
  \<^verbatim>\<open>link[rel='icon']\<close>, that is not empty, where a pass gives the trimmed \<^verbatim>\<open>href\<close> of
  the last match in document order that has one. In particular a document whose only
  \<^verbatim>\<open>link[rel='shortcut icon']\<close> element has the \<^verbatim>\<open>href\<close> \<^verbatim>\<open>/b.png\<close> yields \<^verbatim>\<open>/b.png\<close>,
  whatever else it holds and in whatever order (a \<^verbatim>\<open>link[rel='icon']\<close> element before
  it or after it).\<close>

theorem scan_priority:
  "findIconURLFromHTMLDocument w body =
     (case NewDocumentFromReader w body of
        Inl err \<Rightarrow> Inl (ReadDocument err)
      | Inr doc \<Rightarrow>
          Inr (first_nonempty (map (selector_pass doc)
                 [TagAttrEquals ''link'' ''rel'' ''shortcut icon'',
                  TagAttrEquals ''link'' ''rel'' ''Shortcut Icon'',
                  TagAttrEquals ''link'' ''rel'' ''icon shortcut'',
                  TagAttrEquals ''link'' ''rel'' ''icon''])))
   \<and> (NewDocumentFromReader w body = Inr doc
        \<and> Find doc (TagAttrEquals ''link'' ''rel'' ''shortcut icon'') = [b]
        \<and> Attr b ''href'' = Some ''/b.png''
      \<longrightarrow> findIconURLFromHTMLDocument w body = Inr ''/b.png'')"
  by (auto simp: findIconURLFromHTMLDocument_def loop_first_nonempty queries_def
        selector_pass_def hrefs_def map_filter_def trim_eval split: sum.splits)

theorem scan_priority_witness:
  "findIconURLFromHTMLDocument
      (sampleWorld (page [link ''icon'' ''/a.png'', link ''shortcut icon'' ''/b.png'']))
      (Reader ''<html>'' None) = Inr ''/b.png''
   \<and> findIconURLFromHTMLDocument
      (sampleWorld (page [link ''shortcut icon'' ''/b.png'', link ''icon'' ''/a.png'']))
      (Reader ''<html>'' None) = Inr ''/b.png''
   \<and> findIconURLFromHTMLDocument
      (sampleWorld (page [link ''icon'' ''/a.png'', link ''icon'' '' /c.png '']))
      (Reader ''<html>'' None) = Inr ''/c.png''"
proof -
  let ?ab = "page [link ''icon'' ''/a.png'', link ''shortcut icon'' ''/b.png'']"
  let ?ba = "page [link ''shortcut icon'' ''/b.png'', link ''icon'' ''/a.png'']"
  let ?ac = "page [link ''icon'' ''/a.png'', link ''icon'' '' /c.png '']"
  let ?body = "Reader ''<html>'' None"
  have f: "Find ?ab (TagAttrEquals ''link'' ''rel'' ''shortcut icon'') =
             [Element ''link'' [(''rel'', ''shortcut icon''), (''href'', ''/b.png'')] []]"
          "Find ?ba (TagAttrEquals ''link'' ''rel'' ''shortcut icon'') =
             [Element ''link'' [(''rel'', ''shortcut icon''), (''href'', ''/b.png'')] []]"
    by (simp_all add: doc_eval)
  have p: "NewDocumentFromReader (sampleWorld ?ab) ?body = Inr ?ab"
          "NewDocumentFromReader (sampleWorld ?ba) ?body = Inr ?ba"
    by (simp_all add: sampleWorld_def)
  let ?b = "Element ''link'' [(''rel'', ''shortcut icon''), (''href'', ''/b.png'')] []"
  have a: "Attr ?b ''href'' = Some ''/b.png''" by simp
  have 1: "findIconURLFromHTMLDocument (sampleWorld ?ab) ?body = Inr ''/b.png''"
    using scan_priority [of "sampleWorld ?ab" ?body ?ab ?b] p(1) f(1) a by blast
  have 2: "findIconURLFromHTMLDocument (sampleWorld ?ba) ?body = Inr ''/b.png''"
    using scan_priority [of "sampleWorld ?ba" ?body ?ba ?b] p(2) f(2) a by blast
  have 3: "findIconURLFromHTMLDocument (sampleWorld ?ac) ?body = Inr ''/c.png''"
    using scan_priority [of "sampleWorld ?ac" ?body ?ac]
    by (simp add: sampleWorld_def doc_eval trim_eval)
  from 1 2 3 show ?thesis by blast
qed

subsection \<open>C3: malformed data URLs\<close>

text \<open>C3: \<^verbatim>\<open>parseImageDataURL\<close> returns an error and no icon when there is no comma
  after \<^verbatim>\<open>data:\<close> (the no-comma error); when the media type it has parsed does not
  start with \<^verbatim>\<open>image/\<close> (the invalid-media-type error); and when the token between the
  semicolon and the comma is neither \<^verbatim>\<open>base64\<close> nor empty (the unsupported-encoding
  error when the media type starts with \<^verbatim>\<open>image/\<close>, the invalid-media-type error
  otherwise).\<close>

theorem parseImageDataURL_malformed:
  "(CHR '','' \<notin> set rest \<longrightarrow> parseImageDataURL h (''data:'' @ rest) = Inl (NoComma rest))
   \<and> (parseImageDataURL_split v = Inr (value, mediaType, encoding, data)
        \<and> \<not> HasPrefix mediaType ''image/''
      \<longrightarrow> parseImageDataURL h v = Inl (InvalidMediaType mediaType))
   \<and> (CHR '','' \<notin> set (mt @ enc) \<and> CHR '';'' \<notin> set mt \<and> enc \<noteq> ''base64'' \<and> enc \<noteq> []
      \<longrightarrow> parseImageDataURL h (''data:'' @ mt @ '';'' @ enc @ '','' @ d) =
            Inl (if HasPrefix mt ''image/''
                 then UnsupportedEncoding (mt @ '';'' @ enc @ '','' @ d)
                 else InvalidMediaType (if mt = [] then '';'' @ enc else mt)))"
proof (intro conjI impI)
  assume "CHR '','' \<notin> set rest"
  with split_data_prefix [of rest]
  have "parseImageDataURL_split (''data:'' @ rest) = Inl (NoComma rest)"
    by (simp add: Index_notin)
  then show "parseImageDataURL h (''data:'' @ rest) = Inl (NoComma rest)"
    by (simp add: parseImageDataURL_def)
next
  assume "parseImageDataURL_split v = Inr (value, mediaType, encoding, data)
        \<and> \<not> HasPrefix mediaType ''image/''"
  then show "parseImageDataURL h v = Inl (InvalidMediaType mediaType)"
    by (simp add: parseImageDataURL_def)
next
  assume a: "CHR '','' \<notin> set (mt @ enc) \<and> CHR '';'' \<notin> set mt \<and> enc \<noteq> ''base64'' \<and> enc \<noteq> []"
  show "parseImageDataURL h (''data:'' @ mt @ '';'' @ enc @ '','' @ d) =
            Inl (if HasPrefix mt ''image/''
                 then UnsupportedEncoding (mt @ '';'' @ enc @ '','' @ d)
                 else InvalidMediaType (if mt = [] then '';'' @ enc else mt))"
  proof (cases "mt = []")
    case True
    from a have "CHR '','' \<notin> set ('';'' @ enc)" by simp
    from split_leading_semicolon [OF this, of d] True show ?thesis
      by (simp add: parseImageDataURL_def HasPrefix_def)
  next
    case False
    from a have "CHR '','' \<notin> set (mt @ enc)" "CHR '';'' \<notin> set mt" by simp_all
    from split_semicolon [OF this False, of d] a False show ?thesis
      by (simp add: parseImageDataURL_def parseImageDataURL_blob_def)
  qed
qed

theorem parseImageDataURL_malformed_witness:
  "parseImageDataURL sampleHash ''data:image/png'' = Inl (NoComma ''image/png'')
   \<and> parseImageDataURL sampleHash ''data:text/plain;base64,QUJD'' = Inl (InvalidMediaType ''text/plain'')
   \<and> parseImageDataURL sampleHash ''data:image/png;gzip,QUJD'' =
       Inl (UnsupportedEncoding ''image/png;gzip,QUJD'')
   \<and> parseImageDataURL sampleHash ''data:;gzip,QUJD'' = Inl (InvalidMediaType '';gzip'')"
proof -
  have s: "parseImageDataURL_split ''data:text/plain;base64,QUJD'' =
             Inr (''text/plain;base64,QUJD'', ''text/plain'', ''base64'', ''QUJD'')"
    by (simp add: parse_eval)
  from parseImageDataURL_malformed [where h = sampleHash and rest = "''image/png''"]
  have 1: "parseImageDataURL sampleHash ''data:image/png'' = Inl (NoComma ''image/png'')"
    by simp
  from parseImageDataURL_malformed [where h = sampleHash and v = "''data:text/plain;base64,QUJD''"
    and mediaType = "''text/plain''"] s
  have 2: "parseImageDataURL sampleHash ''data:text/plain;base64,QUJD'' =
             Inl (InvalidMediaType ''text/plain'')"
    by (simp add: HasPrefix_def)
  from parseImageDataURL_malformed [where h = sampleHash and mt = "''image/png''"
    and enc = "''gzip''" and d = "''QUJD''"]
  have 3: "parseImageDataURL sampleHash ''data:image/png;gzip,QUJD'' =
       Inl (UnsupportedEncoding ''image/png;gzip,QUJD'')"
    by (simp add: HasPrefix_def)
  from parseImageDataURL_malformed [where h = sampleHash and mt = "[]"
    and enc = "''gzip''" and d = "''QUJD''"]
  have 4: "parseImageDataURL sampleHash ''data:;gzip,QUJD'' = Inl (InvalidMediaType '';gzip'')"
    by (simp add: HasPrefix_def)
  from 1 2 3 4 show ?thesis by blast
qed

subsection \<open>C4: the two decoders\<close>

text \<open>C4: for a data URL \<^verbatim>\<open>data:<mediatype>,<data>\<close> or \<^verbatim>\<open>data:<mediatype>;,<data>\<close>,
  whose encoding token is empty, the payload is decoded with \<^verbatim>\<open>url.QueryUnescape\<close> and
  an invalid escape is an error; for \<^verbatim>\<open>data:<mediatype>;base64,<data>\<close> it is decoded
  with \<^verbatim>\<open>base64.StdEncoding\<close> and invalid base64 is an error. (A media type that does
  not start with \<^verbatim>\<open>image/\<close> is an error before any decoding.)\<close>

theorem parseImageDataURL_decoding:
  assumes "CHR '','' \<notin> set mt" and "CHR '';'' \<notin> set mt"
  shows
  "parseImageDataURL h (''data:'' @ mt @ '','' @ d) =
     (if \<not> HasPrefix mt ''image/'' then Inl (InvalidMediaType mt)
      else case QueryUnescape d of
             None \<Rightarrow> Inl (UnableToDecode (mt @ '','' @ d))
           | Some blob \<Rightarrow>
               if blob = [] then Inl (EmptyDataURL (mt @ '','' @ d))
               else Inr \<lparr>Hash = h blob, MimeType = mt, Content = blob\<rparr>)
   \<and> parseImageDataURL h (''data:'' @ mt @ '';,'' @ d) =
     (if \<not> HasPrefix mt ''image/'' then Inl (InvalidMediaType (if mt = [] then '';'' else mt))
      else case QueryUnescape d of
             None \<Rightarrow> Inl (UnableToDecode (mt @ '';,'' @ d))
           | Some blob \<Rightarrow>
               if blob = [] then Inl (EmptyDataURL (mt @ '';,'' @ d))
               else Inr \<lparr>Hash = h blob, MimeType = mt, Content = blob\<rparr>)
   \<and> parseImageDataURL h (''data:'' @ mt @ '';base64,'' @ d) =
     (if \<not> HasPrefix mt ''image/''
      then Inl (InvalidMediaType (if mt = [] then '';base64'' else mt))
      else case DecodeString d of
             None \<Rightarrow> Inl (InvalidData (mt @ '';base64,'' @ d))
           | Some blob \<Rightarrow>
               if blob = [] then Inl (EmptyDataURL (mt @ '';base64,'' @ d))
               else Inr \<lparr>Hash = h blob, MimeType = mt, Content = blob\<rparr>)"
proof (intro conjI)
  from split_no_semicolon [OF assms, of d]
  show "parseImageDataURL h (''data:'' @ mt @ '','' @ d) =
     (if \<not> HasPrefix mt ''image/'' then Inl (InvalidMediaType mt)
      else case QueryUnescape d of
             None \<Rightarrow> Inl (UnableToDecode (mt @ '','' @ d))
           | Some blob \<Rightarrow>
               if blob = [] then Inl (EmptyDataURL (mt @ '','' @ d))
               else Inr \<lparr>Hash = h blob, MimeType = mt, Content = blob\<rparr>)"
    by (simp add: parseImageDataURL_def parseImageDataURL_blob_def split: option.splits)
next
  have token: "parseImageDataURL h (''data:'' @ mt @ '';'' @ enc @ '','' @ d) =
     (if \<not> HasPrefix mt ''image/''
      then Inl (InvalidMediaType (if mt = [] then '';'' @ enc else mt))
      else case parseImageDataURL_blob (mt @ '';'' @ enc @ '','' @ d) enc d of
             Inl err \<Rightarrow> Inl err
           | Inr blob \<Rightarrow>
               if blob = [] then Inl (EmptyDataURL (mt @ '';'' @ enc @ '','' @ d))
               else Inr \<lparr>Hash = h blob, MimeType = mt, Content = blob\<rparr>)"
    if enc: "CHR '','' \<notin> set enc" for enc
  proof (cases "mt = []")
    case True
    from enc have "CHR '','' \<notin> set ('';'' @ enc)" by simp
    from split_leading_semicolon [OF this, of d] True show ?thesis
      by (simp add: parseImageDataURL_def HasPrefix_def)
  next
    case False
    from enc assms(1) have "CHR '','' \<notin> set (mt @ enc)" by simp
    from split_semicolon [OF this assms(2) False, of d] False show ?thesis
      by (simp add: parseImageDataURL_def split: sum.splits)
  qed
  from token [of "[]"]
  show "parseImageDataURL h (''data:'' @ mt @ '';,'' @ d) =
     (if \<not> HasPrefix mt ''image/'' then Inl (InvalidMediaType (if mt = [] then '';'' else mt))
      else case QueryUnescape d of
             None \<Rightarrow> Inl (UnableToDecode (mt @ '';,'' @ d))
           | Some blob \<Rightarrow>
               if blob = [] then Inl (EmptyDataURL (mt @ '';,'' @ d))
               else Inr \<lparr>Hash = h blob, MimeType = mt, Content = blob\<rparr>)"
    by (simp add: parseImageDataURL_blob_def split: option.splits)
  from token [of "''base64''"]
  show "parseImageDataURL h (''data:'' @ mt @ '';base64,'' @ d) =
     (if \<not> HasPrefix mt ''image/''
      then Inl (InvalidMediaType (if mt = [] then '';base64'' else mt))
      else case DecodeString d of
             None \<Rightarrow> Inl (InvalidData (mt @ '';base64,'' @ d))
           | Some blob \<Rightarrow>
               if blob = [] then Inl (EmptyDataURL (mt @ '';base64,'' @ d))
               else Inr \<lparr>Hash = h blob, MimeType = mt, Content = blob\<rparr>)"
    by (simp add: parseImageDataURL_blob_def split: option.splits)
qed

theorem parseImageDataURL_decoding_witness:
  "CHR '','' \<notin> set ''image/png'' \<and> CHR '';'' \<notin> set ''image/png''
   \<and> parseImageDataURL sampleHash ''data:image/png,QUJD'' =
       Inr \<lparr>Hash = ''#QUJD'', MimeType = ''image/png'', Content = ''QUJD''\<rparr>
   \<and> parseImageDataURL sampleHash ''data:image/png,%41+%4a'' =
       Inr \<lparr>Hash = ''#A J'', MimeType = ''image/png'', Content = ''A J''\<rparr>
   \<and> parseImageDataURL sampleHash ''data:image/png,%41+%4'' =
       Inl (UnableToDecode ''image/png,%41+%4'')
   \<and> parseImageDataURL sampleHash ''data:image/png;base64,QUJD'' =
       Inr \<lparr>Hash = ''#ABC'', MimeType = ''image/png'', Content = ''ABC''\<rparr>
   \<and> parseImageDataURL sampleHash ''data:image/png;base64,QUJ'' =
       Inl (InvalidData ''image/png;base64,QUJ'')"
proof -
  have h: "CHR '','' \<notin> set ''image/png''" "CHR '';'' \<notin> set ''image/png''"
    by simp_all
  have p: "HasPrefix ''image/png'' ''image/''" by (simp add: HasPrefix_def)
  have q: "QueryUnescape ''QUJD'' = Some ''QUJD''" "QueryUnescape ''%41+%4a'' = Some ''A J''"
    "QueryUnescape ''%41+%4'' = None"
    by (simp_all add: unescape_eval)
  have b: "DecodeString ''QUJD'' = Some ''ABC''" "DecodeString ''QUJ'' = None"
    by (simp_all add: DecodeString_def decodeMap_def encodeStd_def quantumBytes_def Let_def
          char_of_def bit_iff_odd)
  from parseImageDataURL_decoding [OF h, of sampleHash "''QUJD''"]
       parseImageDataURL_decoding [OF h, of sampleHash "''%41+%4a''"]
       parseImageDataURL_decoding [OF h, of sampleHash "''%41+%4''"]
       parseImageDataURL_decoding [OF h, of sampleHash "''QUJ''"]
       h p q b
  show ?thesis by (simp add: sampleHash_def)
qed

subsection \<open>C5: media type and encoding token\<close>

text \<open>C5, as stated, fails on a segment that begins with a semicolon: the test of
  the source is \<^verbatim>\<open>semicolon > 0\<close>, so for \<^verbatim>\<open>data:;base64,QUJD\<close> the whole segment
  \<^verbatim>\<open>;base64\<close> is the media type and the encoding token is empty, where the claim
  gives an empty media type and the token \<^verbatim>\<open>base64\<close>. The difference shows in the
  error that is returned.\<close>

theorem split_counterexample:
  "parseImageDataURL_split ''data:;base64,QUJD'' = Inr ('';base64,QUJD'', '';base64'', [], ''QUJD'')
   \<and> claimed_split '';base64'' = ([], ''base64'')
   \<and> parseImageDataURL_split ''data:;base64,QUJD'' \<noteq>
       Inr ('';base64,QUJD'', fst (claimed_split '';base64''), snd (claimed_split '';base64''),
            ''QUJD'')
   \<and> parseImageDataURL sampleHash ''data:;base64,QUJD'' = Inl (InvalidMediaType '';base64'')"
  by (simp add: parse_eval claimed_split_def)

text \<open>C5, amended: for every data URL \<^verbatim>\<open>data:<segment>,<data>\<close> whose segment holds
  no comma, the split is the one of the specification unless the segment begins with
  a semicolon; a segment that begins with a semicolon is the media type as a whole,
  with an empty encoding token. The first component is \<^verbatim>\<open>value\<close> after the prefix was
  cut off, the last one the payload.\<close>

theorem split_segment_claimed:
  "CHR '','' \<notin> set seg \<Longrightarrow>
   parseImageDataURL_split (''data:'' @ seg @ '','' @ data) =
     Inr (seg @ '','' @ data,
          if prefix '';'' seg then (seg, [], data)
          else (fst (claimed_split seg), snd (claimed_split seg), data))"
  using split_leading_semicolon [of seg data] split_claimed [of seg data] by simp

theorem split_segment_claimed_witness:
  "CHR '','' \<notin> set ''image/png;base64''
   \<and> parseImageDataURL_split ''data:image/png;base64,QUJD'' =
       Inr (''image/png;base64,QUJD'', ''image/png'', ''base64'', ''QUJD'')
   \<and> CHR '','' \<notin> set '';base64''
   \<and> parseImageDataURL_split ''data:;base64,QUJD'' =
       Inr ('';base64,QUJD'', '';base64'', [], ''QUJD'')"
  using split_segment_claimed [of "''image/png;base64''" "''QUJD''"]
        split_segment_claimed [of "'';base64''" "''QUJD''"]
  by (simp add: claimed_split_def)

subsection \<open>C6: generateIconURL\<close>

text \<open>C6: when the candidate is empty after trimming, \<^verbatim>\<open>generateIconURL\<close> returns the
  root URL of the site joined with \<^verbatim>\<open>favicon.ico\<close>; otherwise it returns the trimmed
  candidate made absolute against the site URL. An error of the URL utility is passed
  on, wrapped. A page in which no selector matches gives the empty candidate, which
  takes the first branch; and \<^verbatim>\<open>FindIcon\<close>, with a candidate that is empty after
  trimming, downloads the icon from that URL.\<close>

theorem generateIconURL_cases:
  "generateIconURL w websiteURL feedIconURL =
     (if TrimSpace feedIconURL = []
      then (case JoinBaseURLAndPath w (RootURL w websiteURL) ''favicon.ico'' of
              Inl err \<Rightarrow> Inl (JoinBaseURL err)
            | Inr iconURL \<Rightarrow> Inr iconURL)
      else (case AbsoluteURL w websiteURL (TrimSpace feedIconURL) of
              Inl err \<Rightarrow> Inl (ConvertAbsoluteURL err)
            | Inr iconURL \<Rightarrow> Inr iconURL))
   \<and> ((\<forall>query\<in>set queries. Find doc query = []) \<and> NewDocumentFromReader w body = Inr doc
        \<longrightarrow> findIconURLFromHTMLDocument w body = Inr []
          \<and> generateIconURL w websiteURL [] =
              (case JoinBaseURLAndPath w (RootURL w websiteURL) ''favicon.ico'' of
                 Inl err \<Rightarrow> Inl (JoinBaseURL err)
               | Inr iconURL \<Rightarrow> Inr iconURL))
   \<and> (FindIcon_candidate w websiteURL feedIconURL ua fetchViaProxy allowSelfSigned log =
          (Inr candidate, log')
        \<and> \<not> HasPrefix candidate ''data:'' \<and> TrimSpace candidate = []
        \<longrightarrow> FindIcon w websiteURL feedIconURL ua fetchViaProxy allowSelfSigned log =
            (case JoinBaseURLAndPath w (RootURL w websiteURL) ''favicon.ico'' of
               Inl err \<Rightarrow> (Inl (JoinBaseURL err), log')
             | Inr iconURL \<Rightarrow> downloadIcon w iconURL ua fetchViaProxy allowSelfSigned log'))"
proof (intro conjI impI)
  show g: "generateIconURL w websiteURL feedIconURL =
     (if TrimSpace feedIconURL = []
      then (case JoinBaseURLAndPath w (RootURL w websiteURL) ''favicon.ico'' of
              Inl err \<Rightarrow> Inl (JoinBaseURL err)
            | Inr iconURL \<Rightarrow> Inr iconURL)
      else (case AbsoluteURL w websiteURL (TrimSpace feedIconURL) of
              Inl err \<Rightarrow> Inl (ConvertAbsoluteURL err)
            | Inr iconURL \<Rightarrow> Inr iconURL))" for feedIconURL
    by (simp add: generateIconURL_def Let_def)
  {
    assume a: "(\<forall>query\<in>set queries. Find doc query = []) \<and> NewDocumentFromReader w body = Inr doc"
    then have "\<forall>u\<in>set (map (selector_pass doc) queries). u = []"
      by (auto simp: pass_no_match)
    then have "first_nonempty (map (selector_pass doc) queries) = []"
      by (rule first_nonempty_all_empty)
    with a show "findIconURLFromHTMLDocument w body = Inr []"
      by (simp add: findIconURLFromHTMLDocument_def loop_first_nonempty)
    from g [of "[]"]
    show "generateIconURL w websiteURL [] =
              (case JoinBaseURLAndPath w (RootURL w websiteURL) ''favicon.ico'' of
                 Inl err \<Rightarrow> Inl (JoinBaseURL err)
               | Inr iconURL \<Rightarrow> Inr iconURL)"
      by (simp add: TrimSpace_Nil)
  }
  assume "FindIcon_candidate w websiteURL feedIconURL ua fetchViaProxy allowSelfSigned log =
          (Inr candidate, log')
        \<and> \<not> HasPrefix candidate ''data:'' \<and> TrimSpace candidate = []"
  with g [of candidate]
  show "FindIcon w websiteURL feedIconURL ua fetchViaProxy allowSelfSigned log =
            (case JoinBaseURLAndPath w (RootURL w websiteURL) ''favicon.ico'' of
               Inl err \<Rightarrow> (Inl (JoinBaseURL err), log')
             | Inr iconURL \<Rightarrow> downloadIcon w iconURL ua fetchViaProxy allowSelfSigned log')"
    by (simp add: FindIcon_def split: sum.splits)
qed

theorem generateIconURL_cases_witness:
  "generateIconURL (sampleWorld []) ''https://example.org/blog/'' ''   '' =
     Inr ''https://example.org/favicon.ico''
   \<and> generateIconURL (sampleWorld []) ''https://example.org/blog/'' '' /b.png '' =
     Inr ''https://example.org/b.png''
   \<and> findIconURLFromHTMLDocument (sampleWorld (page [])) (Reader ''<html>'' None) = Inr []
   \<and> generateIconURL (sampleWorld (page [])) ''https://example.org/blog/'' [] =
     Inr ''https://example.org/favicon.ico''
   \<and> FindIcon (sampleWorld (page [])) ''https://example.org/blog/'' [] ''ua'' False False [] =
     (Inr \<lparr>Hash = ''#ICO'', MimeType = ''image/x-icon'', Content = ''ICO''\<rparr>,
      [\<lparr>requestURL = ''https://example.org'', userAgent = ''ua'', withProxy = False,
         allowSelfSignedCertificates = False\<rparr>,
       \<lparr>requestURL = ''https://example.org/favicon.ico'', userAgent = ''ua'', withProxy = False,
         allowSelfSignedCertificates = False\<rparr>])"
proof -
  let ?w = "sampleWorld (page [])"
  let ?site = "''https://example.org/blog/''"
  let ?req = "\<lparr>requestURL = ''https://example.org'', userAgent = ''ua'', withProxy = False,
         allowSelfSignedCertificates = False\<rparr>"
  have t: "TrimSpace ''   '' = []" "TrimSpace '' /b.png '' = ''/b.png''" "TrimSpace [] = []"
    by (simp_all add: trim_eval)
  have n: "\<forall>query\<in>set queries. Find (page []) query = []"
    by (simp add: doc_eval)
  have d: "NewDocumentFromReader ?w (Reader ''<html>'' None) = Inr (page [])"
    by (simp add: sampleWorld_def)
  have 1: "generateIconURL (sampleWorld []) ?site ''   '' = Inr ''https://example.org/favicon.ico''"
    using generateIconURL_cases [of "sampleWorld []" ?site "''   ''"] t
    by (simp add: sampleWorld_def)
  have 2: "generateIconURL (sampleWorld []) ?site '' /b.png '' = Inr ''https://example.org/b.png''"
    using generateIconURL_cases [of "sampleWorld []" ?site "'' /b.png ''"] t
    by (simp add: sampleWorld_def)
  note inst = generateIconURL_cases [where w = ?w and websiteURL = ?site and feedIconURL = "[]"
      and doc = "page []" and body = "Reader ''<html>'' None"
      and ua = "''ua''" and fetchViaProxy = False and allowSelfSigned = False and log = "[]"
      and candidate = "[]" and log' = "[?req]"]
  from inst n d
  have 34: "findIconURLFromHTMLDocument ?w (Reader ''<html>'' None) = Inr []
      \<and> generateIconURL ?w ?site [] =
          (case JoinBaseURLAndPath ?w (RootURL ?w ?site) ''favicon.ico'' of
             Inl err \<Rightarrow> Inl (JoinBaseURL err)
           | Inr iconURL \<Rightarrow> Inr iconURL)"
    by blast
  then have 3: "findIconURLFromHTMLDocument ?w (Reader ''<html>'' None) = Inr []"
    and 4: "generateIconURL ?w ?site [] = Inr ''https://example.org/favicon.ico''"
    by (simp_all add: sampleWorld_def)
  have c: "FindIcon_candidate ?w ?site [] ''ua'' False False [] = (Inr [], [?req])"
    using 3 by (simp add: FindIcon_candidate_def fetchHTMLDocumentAndFindIconURL_def world_eval)
  have p: "\<not> HasPrefix [] ''data:''" by (simp add: HasPrefix_def)
  have dl: "downloadIcon ?w ''https://example.org/favicon.ico'' ''ua'' False False [?req] =
     (Inr \<lparr>Hash = ''#ICO'', MimeType = ''image/x-icon'', Content = ''ICO''\<rparr>,
      [?req, \<lparr>requestURL = ''https://example.org/favicon.ico'', userAgent = ''ua'',
               withProxy = False, allowSelfSignedCertificates = False\<rparr>])"
    by (simp add: downloadIcon_def world_eval)
  from inst c p t(3)
  have "FindIcon ?w ?site [] ''ua'' False False [] =
     (case JoinBaseURLAndPath ?w (RootURL ?w ?site) ''favicon.ico'' of
        Inl err \<Rightarrow> (Inl (JoinBaseURL err), [?req])
      | Inr iconURL \<Rightarrow> downloadIcon ?w iconURL ''ua'' False False [?req])"
    by blast
  also have "\<dots> = downloadIcon ?w ''https://example.org/favicon.ico'' ''ua'' False False [?req]"
    by (simp add: sampleWorld_def)
  finally have 5: "FindIcon ?w ?site [] ''ua'' False False [] =
     (Inr \<lparr>Hash = ''#ICO'', MimeType = ''image/x-icon'', Content = ''ICO''\<rparr>,
      [?req, \<lparr>requestURL = ''https://example.org/favicon.ico'', userAgent = ''ua'',
               withProxy = False, allowSelfSignedCertificates = False\<rparr>])"
    using dl by simp
  from 1 2 3 4 5 show ?thesis by blast
qed

subsection \<open>C7: downloadIcon\<close>

text \<open>C7: \<^verbatim>\<open>downloadIcon\<close> returns an error exactly when the GET fails, or the
  response has a server-failure status, or reading the body fails, or the body is
  empty. The server-failure error carries the status code (503 for a 503 response),
  the empty-content error the icon URL. Otherwise the icon has the digest of the body
  as its hash, the content type of the response as its MIME type and the body as its
  content. One request is made.\<close>

theorem downloadIcon_cases:
  fixes w iconURL ua fetchViaProxy allowSelfSigned log
  defines "clt \<equiv> \<lparr>requestURL = iconURL, userAgent = ua, withProxy = fetchViaProxy,
                    allowSelfSignedCertificates = allowSelfSigned\<rparr>"
  defines "result \<equiv> fst (downloadIcon w iconURL ua fetchViaProxy allowSelfSigned log)"
  shows
  "(isl result \<longleftrightarrow>
      (case Get w log clt of
         Inl err \<Rightarrow> True
       | Inr response \<Rightarrow>
           HasServerFailure response \<or>
           (case ReadAll (Body response) of Inl err \<Rightarrow> True | Inr body \<Rightarrow> body = [])))
   \<and> (Get w log clt = Inl err \<longrightarrow> result = Inl (DownloadIconURL err))
   \<and> (Get w log clt = Inr response \<and> HasServerFailure response
        \<longrightarrow> result = Inl (DownloadIconStatus (StatusCode response)))
   \<and> (Get w log clt = Inr response \<and> StatusCode response = 503
        \<longrightarrow> result = Inl (DownloadIconStatus 503))
   \<and> (Get w log clt = Inr response \<and> \<not> HasServerFailure response
        \<and> ReadAll (Body response) = Inl err \<longrightarrow> result = Inl (ReadDownloadedIcon err))
   \<and> (Get w log clt = Inr response \<and> \<not> HasServerFailure response
        \<and> ReadAll (Body response) = Inr [] \<longrightarrow> result = Inl (DownloadedIconEmpty iconURL))
   \<and> (Get w log clt = Inr response \<and> \<not> HasServerFailure response
        \<and> ReadAll (Body response) = Inr body \<and> body \<noteq> []
        \<longrightarrow> result = Inr \<lparr>Hash = HashFromBytes w body, MimeType = ContentType response,
                          Content = body\<rparr>)
   \<and> snd (downloadIcon w iconURL ua fetchViaProxy allowSelfSigned log) = log @ [clt]"
  unfolding result_def clt_def downloadIcon_def Let_def
  by (auto simp: HasServerFailure_def split: sum.splits)

theorem downloadIcon_cases_witness:
  "fst (downloadIcon (sampleWorld []) ''https://example.org/down.png'' ''ua'' False False []) =
     Inl (DownloadIconStatus 503)
   \<and> fst (downloadIcon (sampleWorld []) ''https://example.org/empty.png'' ''ua'' False False []) =
     Inl (DownloadedIconEmpty ''https://example.org/empty.png'')
   \<and> fst (downloadIcon (sampleWorld []) ''https://example.org/cut.png'' ''ua'' False False []) =
     Inl (ReadDownloadedIcon ''unexpected EOF'')
   \<and> fst (downloadIcon (sampleWorld []) ''https://nowhere.test/x.png'' ''ua'' False False []) =
     Inl (DownloadIconURL ''no such host'')
   \<and> fst (downloadIcon (sampleWorld []) ''https://example.org/b.png'' ''ua'' False False []) =
     Inr \<lparr>Hash = ''#PNG'', MimeType = ''image/png'', Content = ''PNG''\<rparr>"
  using
    downloadIcon_cases [where w = "sampleWorld []" and log = "[]" and ua = "''ua''"
      and fetchViaProxy = False and allowSelfSigned = False
      and iconURL = "''https://example.org/down.png''"
      and response = "\<lparr>StatusCode = 503, ContentType = ''text/plain'', Body = Reader ''busy'' None\<rparr>"]
    downloadIcon_cases [where w = "sampleWorld []" and log = "[]" and ua = "''ua''"
      and fetchViaProxy = False and allowSelfSigned = False
      and iconURL = "''https://example.org/empty.png''"
      and response = "\<lparr>StatusCode = 200, ContentType = ''image/png'', Body = Reader [] None\<rparr>"]
    downloadIcon_cases [where w = "sampleWorld []" and log = "[]" and ua = "''ua''"
      and fetchViaProxy = False and allowSelfSigned = False
      and iconURL = "''https://example.org/cut.png''"
      and response = "\<lparr>StatusCode = 200, ContentType = ''image/png'',
        Body = Reader ''PN'' (Some ''unexpected EOF'')\<rparr>"
      and err = "''unexpected EOF''"]
    downloadIcon_cases [where w = "sampleWorld []" and log = "[]" and ua = "''ua''"
      and fetchViaProxy = False and allowSelfSigned = False
      and iconURL = "''https://nowhere.test/x.png''"
      and err = "''no such host''"]
    downloadIcon_cases [where w = "sampleWorld []" and log = "[]" and ua = "''ua''"
      and fetchViaProxy = False and allowSelfSigned = False
      and iconURL = "''https://example.org/b.png''"
      and response = "\<lparr>StatusCode = 200, ContentType = ''image/png'', Body = Reader ''PNG'' None\<rparr>"
      and body = "''PNG''"]
  by (simp add: world_eval)

subsection \<open>C8: data URLs in FindIcon\<close>

text \<open>C8: when the candidate icon URL of \<^verbatim>\<open>FindIcon\<close> (the supplied \<^verbatim>\<open>feedIconURL\<close>,
  or what the scan of the page gives when that is empty) begins with \<^verbatim>\<open>data:\<close>, the
  result is \<^verbatim>\<open>parseImageDataURL\<close> of the candidate. No icon is downloaded: the only
  request made is the one for the page, and only when \<^verbatim>\<open>feedIconURL\<close> was empty. No URL is
  resolved: the result is the same whatever \<^verbatim>\<open>JoinBaseURLAndPath\<close> and \<^verbatim>\<open>AbsoluteURL\<close>
  are.\<close>

theorem FindIcon_data_URL:
  assumes "FindIcon_candidate w websiteURL feedIconURL ua fetchViaProxy allowSelfSigned log =
             (Inr candidate, log')"
    and "HasPrefix candidate ''data:''"
  shows "FindIcon w websiteURL feedIconURL ua fetchViaProxy allowSelfSigned log =
           (parseImageDataURL (HashFromBytes w) candidate, log')
         \<and> log' = (if feedIconURL = [] then
                     log @ [\<lparr>requestURL = RootURL w websiteURL, userAgent = ua,
                              withProxy = fetchViaProxy,
                              allowSelfSignedCertificates = allowSelfSigned\<rparr>]
                   else log)
         \<and> FindIcon (w\<lparr>JoinBaseURLAndPath := j, AbsoluteURL := r\<rparr>) websiteURL feedIconURL ua
              fetchViaProxy allowSelfSigned log =
             FindIcon w websiteURL feedIconURL ua fetchViaProxy allowSelfSigned log"
proof -
  from assms have 1: "FindIcon w websiteURL feedIconURL ua fetchViaProxy allowSelfSigned log =
           (parseImageDataURL (HashFromBytes w) candidate, log')"
    by (simp add: FindIcon_def)
  from assms(1) candidate_log [of w websiteURL feedIconURL ua fetchViaProxy allowSelfSigned log]
  have 2: "log' = (if feedIconURL = [] then
                     log @ [\<lparr>requestURL = RootURL w websiteURL, userAgent = ua,
                              withProxy = fetchViaProxy,
                              allowSelfSignedCertificates = allowSelfSigned\<rparr>]
                   else log)"
    by simp
  from assms have 3: "FindIcon (w\<lparr>JoinBaseURLAndPath := j, AbsoluteURL := r\<rparr>) websiteURL
        feedIconURL ua fetchViaProxy allowSelfSigned log =
      (parseImageDataURL (HashFromBytes w) candidate, log')"
    by (simp add: FindIcon_def candidate_urllib)
  from 1 2 3 show ?thesis by simp
qed

theorem FindIcon_data_URL_witness:
  "FindIcon (sampleWorld []) ''https://example.org/blog'' ''data:image/png;base64,QUJD'' ''ua''
      False False [] =
     (Inr \<lparr>Hash = ''#ABC'', MimeType = ''image/png'', Content = ''ABC''\<rparr>, [])
   \<and> FindIcon (sampleWorld (page [link ''icon'' ''data:image/png,%41+B''])) ''https://example.org/blog''
      [] ''ua'' False False [] =
     (Inr \<lparr>Hash = ''#A B'', MimeType = ''image/png'', Content = ''A B''\<rparr>,
      [\<lparr>requestURL = ''https://example.org'', userAgent = ''ua'', withProxy = False,
         allowSelfSignedCertificates = False\<rparr>])"
proof -
  let ?w = "sampleWorld (page [link ''icon'' ''data:image/png,%41+B''])"
  let ?req = "\<lparr>requestURL = ''https://example.org'', userAgent = ''ua'', withProxy = False,
         allowSelfSignedCertificates = False\<rparr>"
  have c1: "FindIcon_candidate (sampleWorld []) ''https://example.org/blog''
       ''data:image/png;base64,QUJD'' ''ua'' False False [] = (Inr ''data:image/png;base64,QUJD'', [])"
    by (simp add: FindIcon_candidate_def)
  have p1: "HasPrefix ''data:image/png;base64,QUJD'' ''data:''"
    by (simp add: HasPrefix_def)
  have c2: "FindIcon_candidate ?w ''https://example.org/blog'' [] ''ua'' False False [] =
       (Inr ''data:image/png,%41+B'', [?req])"
    by (simp add: find_eval world_eval doc_eval trim_eval)
  have p2: "HasPrefix ''data:image/png,%41+B'' ''data:''"
    by (simp add: HasPrefix_def)
  from FindIcon_data_URL [OF c1 p1] FindIcon_data_URL [OF c2 p2] show ?thesis
    by (simp add: parse_eval sampleWorld_def)
qed

subsection \<open>C9: the base64 round trip\<close>

text \<open>C9, as stated, fails: the decoder of \<^verbatim>\<open>base64.StdEncoding\<close> skips \<^verbatim>\<open>\r\<close> and
  \<^verbatim>\<open>\n\<close> and, not being strict, ignores the padding bits of the last character. The
  data URL with payload \<^verbatim>\<open>QU\nJD\<close> is accepted and decodes to \<^verbatim>\<open>ABC\<close>, which encodes
  to \<^verbatim>\<open>QUJD\<close>; the one with payload \<^verbatim>\<open>QR==\<close> is accepted and decodes to \<^verbatim>\<open>A\<close>, which
  encodes to \<^verbatim>\<open>QQ==\<close>.\<close>

theorem base64_roundtrip_counterexample:
  "parseImageDataURL sampleHash (''data:image/png;base64,QU'' @ [CHR 0x0A] @ ''JD'') =
     Inr \<lparr>Hash = ''#ABC'', MimeType = ''image/png'', Content = ''ABC''\<rparr>
   \<and> EncodeToString ''ABC'' = ''QUJD''
   \<and> ''QUJD'' \<noteq> ''QU'' @ [CHR 0x0A] @ ''JD''
   \<and> parseImageDataURL sampleHash ''data:image/png;base64,QR=='' =
     Inr \<lparr>Hash = ''#A'', MimeType = ''image/png'', Content = ''A''\<rparr>
   \<and> EncodeToString ''A'' = ''QQ==''
   \<and> ''QQ=='' \<noteq> ''QR==''"
  by (simp add: parse_eval)

text \<open>C9, amended: for every input \<^verbatim>\<open>data:<mediatype>;base64,<b64>\<close> (no comma and
  no semicolon in the media type) that \<^verbatim>\<open>parseImageDataURL\<close> accepts, where
  \<^verbatim>\<open><b64>\<close> has no line breaks and its padding bits are zero, encoding the content of
  the icon with standard base64 gives \<^verbatim>\<open><b64>\<close> again.\<close>

theorem base64_roundtrip:
  assumes mt: "CHR '','' \<notin> set mt" "CHR '';'' \<notin> set mt"
    and b64: "noLineBreaks b64" "paddingBitsZero b64"
    and ok: "parseImageDataURL h (''data:'' @ mt @ '';base64,'' @ b64) = Inr icon"
  shows "EncodeToString (Content icon) = b64"
proof -
  have ne: "mt \<noteq> []"
  proof
    assume "mt = []"
    then have "parseImageDataURL_split (''data:'' @ mt @ '';base64,'' @ b64) =
                 Inr ('';base64,'' @ b64, '';base64'', [], b64)"
      using split_leading_semicolon [of "'';base64''" b64] by simp
    with ok show False by (simp add: parseImageDataURL_def HasPrefix_def)
  qed
  have c: "CHR '','' \<notin> set (mt @ ''base64'')" using mt(1) by simp
  have sp: "parseImageDataURL_split (''data:'' @ mt @ '';base64,'' @ b64) =
              Inr (mt @ '';base64,'' @ b64, mt, ''base64'', b64)"
    using split_semicolon [OF c mt(2) ne, of b64] by simp
  from ok obtain blob where "decodeQuantum [] b64 = Some blob" "Content icon = blob"
    unfolding parseImageDataURL_def sp
    by (auto simp: parseImageDataURL_blob_def DecodeString_def split: if_splits option.splits)
  with decode_encode_roundtrip [OF b64] show ?thesis by simp
qed

theorem base64_roundtrip_witness:
  "CHR '','' \<notin> set ''image/png'' \<and> CHR '';'' \<notin> set ''image/png''
   \<and> noLineBreaks ''QUI='' \<and> paddingBitsZero ''QUI=''
   \<and> parseImageDataURL sampleHash (''data:'' @ ''image/png'' @ '';base64,'' @ ''QUI='') =
       Inr \<lparr>Hash = ''#AB'', MimeType = ''image/png'', Content = ''AB''\<rparr>
   \<and> EncodeToString (Content \<lparr>Hash = ''#AB'', MimeType = ''image/png'', Content = ''AB''\<rparr>) = ''QUI=''"
proof -
  have h: "CHR '','' \<notin> set ''image/png''" "CHR '';'' \<notin> set ''image/png''"
    "noLineBreaks ''QUI=''" "paddingBitsZero ''QUI=''"
    by (simp_all add: noLineBreaks_def paddingBitsZero_def lowBitsZero_def decodeMap_def encodeStd_def)
  have p: "parseImageDataURL sampleHash (''data:'' @ ''image/png'' @ '';base64,'' @ ''QUI='') =
       Inr \<lparr>Hash = ''#AB'', MimeType = ''image/png'', Content = ''AB''\<rparr>"
    by (simp add: parse_eval)
  from base64_roundtrip [OF h p] h p show ?thesis by blast
qed

subsection \<open>C10: a blank href overwrites\<close>

text \<open>C10: in a selector pass a matching element with an \<^verbatim>\<open>href\<close> attribute sets the
  candidate to the trimmed \<^verbatim>\<open>href\<close>, also when that is empty, and a matching element
  without one leaves the candidate as it is. So when the last \<^verbatim>\<open>href\<close> among the matches
  of a selector is blank the pass ends with the empty string, whatever the earlier
  matches were, and the scan goes on with the remaining selectors.\<close>

theorem blank_href_overwrites:
  "(Attr s ''href'' = Some href \<longrightarrow> each_href iconURL s = TrimSpace href)
   \<and> (Attr s ''href'' = None \<longrightarrow> each_href iconURL s = iconURL)
   \<and> (hrefs (Find doc query) = earlier @ [href] \<and> TrimSpace href = []
        \<longrightarrow> foldl each_href iconURL (Find doc query) = []
          \<and> findIconURL_loop doc (query # rest) iconURL = findIconURL_loop doc rest [])"
  by (simp add: each_href_def foldl_each_href Let_def)

theorem blank_href_overwrites_witness:
  "each_href ''/x.png'' (link ''icon'' ''  '') = []
   \<and> each_href ''/x.png'' (Element ''link'' [(''rel'', ''icon'')] []) = ''/x.png''
   \<and> hrefs (Find (page [link ''shortcut icon'' ''/x.png'', link ''shortcut icon'' ''  '',
                         link ''icon'' ''/a.png''])
               (TagAttrEquals ''link'' ''rel'' ''shortcut icon'')) = [''/x.png''] @ [''  '']
   \<and> TrimSpace ''/x.png'' = ''/x.png''
   \<and> TrimSpace ''  '' = []
   \<and> findIconURL_loop (page [link ''shortcut icon'' ''/x.png'', link ''shortcut icon'' ''  '',
                              link ''icon'' ''/a.png'']) queries [] = ''/a.png''"
proof -
  let ?doc = "page [link ''shortcut icon'' ''/x.png'', link ''shortcut icon'' ''  '',
                    link ''icon'' ''/a.png'']"
  let ?q = "TagAttrEquals ''link'' ''rel'' ''shortcut icon''"
  let ?rest = "[TagAttrEquals ''link'' ''rel'' ''Shortcut Icon'',
                TagAttrEquals ''link'' ''rel'' ''icon shortcut'',
                TagAttrEquals ''link'' ''rel'' ''icon'']"
  have a: "Attr (link ''icon'' ''  '') ''href'' = Some ''  ''"
    by (simp add: link_def)
  have b: "Attr (Element ''link'' [(''rel'', ''icon'')] []) ''href'' = None"
    by simp
  have h: "hrefs (Find ?doc ?q) = [''/x.png''] @ [''  '']"
    by (simp add: doc_eval)
  have t: "TrimSpace ''  '' = []" "TrimSpace ''/x.png'' = ''/x.png''"
    by (simp_all add: trim_eval)
  have r: "findIconURL_loop ?doc ?rest [] = ''/a.png''"
    by (simp add: loop_first_nonempty doc_eval trim_eval)
  have q: "queries = ?q # ?rest" by (simp add: queries_def)
  from blank_href_overwrites [of "link ''icon'' ''  ''" "''  ''" "''/x.png''"] a t(1)
  have 1: "each_href ''/x.png'' (link ''icon'' ''  '') = []" by simp
  from blank_href_overwrites [of "Element ''link'' [(''rel'', ''icon'')] []" _ "''/x.png''"] b
  have 2: "each_href ''/x.png'' (Element ''link'' [(''rel'', ''icon'')] []) = ''/x.png''" by blast
  from blank_href_overwrites [of _ "''  ''" "[]" ?doc ?q "[''/x.png'']" ?rest] h t(1)
  have 3: "findIconURL_loop ?doc (?q # ?rest) [] = findIconURL_loop ?doc ?rest []" by blast
  from 1 2 3 h t r show ?thesis unfolding q by simp
qed

end
